theory Spec2Isabelle
  imports Main "HOL-Library.Multiset"
begin

section \<open>The CSV processing pipeline of \<^verbatim>\<open>file-processing/process_csv.py\<close>\<close>

text \<open>
  The script keeps one pandas object in \<^verbatim>\<open>self.df\<close> and rewrites it stage by stage.
  A DataFrame is modelled row by row: the column labels in order, and for each row its
  label in the index and one cell per column. A cell is \<open>None\<close> when pandas reports it
  as null (NaN, None, NaT) and \<open>Some v\<close> otherwise; the type \<open>'v\<close> of the Python values
  themselves (cell values and row labels) is left open.
\<close>

subsection \<open>Data\<close>

type_synonym 'v cell = "'v option"

record 'v dataframe =
  columns :: "string list"
  rows :: "('v \<times> 'v cell list) list"

text \<open>
  \<^verbatim>\<open>self.df\<close> is a DataFrame after the load, but a filter can leave a Series in its
  place (one row, its cells labelled by the column names).
\<close>

datatype 'v pdobj =
    Frame "'v dataframe"
  | Series "(string \<times> 'v cell) list"

text \<open>The Python exceptions that the modelled calls can raise.\<close>

datatype py_exception =
    AttributeError
  | TypeError
  | KeyError
  | ValueError
  | IndexError
  | OtherException string

text \<open>
  What the script writes through \<^verbatim>\<open>logger\<close> and \<^verbatim>\<open>print\<close>. The two
  \<open>Partial\<close> messages stand for the lines that \<^verbatim>\<open>show_info\<close> and \<^verbatim>\<open>show_summary\<close> have
  printed when an exception stops them.
\<close>

datatype 'v log_msg =
    Info_Loading string
  | Info_Loaded nat nat
  | Error_Load py_exception
  | Error_ColumnsNotFound "string set"
  | Info_Selecting "string list"
  | Info_ApplyingFilter string
  | Info_Filtered int nat
  | Error_Filter py_exception
  | Error_SortColumnNotFound string
  | Info_Sorting string bool
  | Info_RemovedDuplicates int
  | Info_NoMissing
  | Info_FoundMissing nat
  | Info_Dropped
  | Info_Filled 'v
  | Info_Saving string string
  | Error_UnsupportedFormat string
  | Info_Saved
  | Error_Save py_exception
  | Info_Completed
  | Print_Info nat nat "(string \<times> nat) list"
  | Print_Info_Partial nat "nat option" "(string \<times> nat) list"
  | Print_Summary nat nat int nat
  | Print_Summary_Partial nat "(nat \<times> int) option"

text \<open>
  The object \<^verbatim>\<open>CSVProcessor\<close>, together with the two effects of the script that the
  outside can observe: the messages logged so far and the files written so far (path,
  format, content).
\<close>

record 'v processor =
  input_file :: string
  df :: "'v pdobj option"
  original_rows :: nat
  logged :: "'v log_msg list"
  written :: "(string \<times> string \<times> 'v pdobj) list"

subsection \<open>What pandas hands back\<close>

text \<open>
  A pandas frame is rectangular: every row holds one cell per column, so all columns
  have the same number of cells.
\<close>

definition equal_row_count :: "'v dataframe \<Rightarrow> bool" where
  "equal_row_count d \<longleftrightarrow> list_all (\<lambda>r. length (snd r) = length (columns d)) (rows d)"

text \<open>
  The frames that \<^verbatim>\<open>pd.read_csv\<close> builds: rectangular, and with column names that
  differ from one another (pandas renames a repeated header field).
\<close>

typedef 'v csv_frame = "{d :: 'v dataframe. equal_row_count d \<and> distinct (columns d)}"
  morphisms frame_of Abs_csv_frame
  by (rule exI [of _ "\<lparr>columns = [], rows = []\<rparr>"]) (simp add: equal_row_count_def)

setup_lifting type_definition_csv_frame

text \<open>
  What the expression evaluator behind \<^verbatim>\<open>DataFrame.query\<close> answers for an expression:
  a boolean mask (a comparison of columns), a list of row labels (a list literal, or a
  column of labels), one row label (a literal), or something else; in the last case
  the environment says what indexing the frame with it gives.
\<close>

datatype 'v query_answer =
    Mask "bool list"
  | Labels "'v list"
  | Label 'v
  | Other "py_exception + 'v pdobj"

text \<open>
  The library calls whose result the script's text does not determine are parameters:
  what \<^verbatim>\<open>pd.read_csv\<close> makes of the input file, what the expression evaluator of
  \<^verbatim>\<open>DataFrame.query\<close> answers, the sorting kernel behind \<^verbatim>\<open>sort_values\<close> (the script
  passes no \<^verbatim>\<open>kind\<close>, so pandas asks NumPy for its default \<^verbatim>\<open>quicksort\<close> argsort),
  \<^verbatim>\<open>Path.suffix\<close>, and whether writing the output file raises.
\<close>

record 'v env =
  read_csv :: "string \<Rightarrow> string \<Rightarrow> string \<Rightarrow> py_exception + 'v csv_frame"
  eval_query :: "string \<Rightarrow> 'v dataframe \<Rightarrow> py_exception + 'v query_answer"
  argsort :: "'v list \<Rightarrow> nat list"
  path_suffix :: "string \<Rightarrow> string"
  write_file :: "string \<Rightarrow> string \<Rightarrow> 'v pdobj \<Rightarrow> py_exception option"

subsection \<open>Strings\<close>

text \<open>
  A Python string is read as the list of its code points, each below 256. These are
  the ones among them that \<^verbatim>\<open>str.isspace\<close> accepts.
\<close>

definition is_space :: "char \<Rightarrow> bool" where
  "is_space c \<longleftrightarrow>
     c \<in> set [CHR 0x09, CHR 0x0A, CHR 0x0B, CHR 0x0C, CHR 0x0D,
              CHR 0x1C, CHR 0x1D, CHR 0x1E, CHR 0x1F, CHR '' '',
              CHR 0x85, CHR 0xA0]"

text \<open>\<^verbatim>\<open>str.strip()\<close>\<close>

definition strip :: "string \<Rightarrow> string" where
  "strip s = rev (dropWhile is_space (rev (dropWhile is_space s)))"

text \<open>\<^verbatim>\<open>str.split(sep)\<close> for a separator of one character.\<close>

fun split_on :: "char \<Rightarrow> string \<Rightarrow> string list" where
  "split_on sep [] = [[]]"
| "split_on sep (c # cs) =
     (if c = sep then [] # split_on sep cs
      else (case split_on sep cs of
              w # ws \<Rightarrow> (c # w) # ws
            | [] \<Rightarrow> [[c]]))"

text \<open>
  \<^verbatim>\<open>str.lower()\<close> (the capital letters below code point 256 are A to Z and 0xC0 to
  0xDE without the multiplication sign 0xD7), and \<^verbatim>\<open>str.replace('.', '')\<close>.
\<close>

definition lower_char :: "char \<Rightarrow> char" where
  "lower_char c =
     (let n = (of_char c :: nat)
      in if (65 \<le> n \<and> n \<le> 90) \<or> (192 \<le> n \<and> n \<le> 222 \<and> n \<noteq> 215)
         then char_of (n + 32) else c)"

definition lower :: "string \<Rightarrow> string" where
  "lower s = map lower_char s"

definition remove_dots :: "string \<Rightarrow> string" where
  "remove_dots s = filter (\<lambda>c. c \<noteq> CHR ''.'') s"

text \<open>Python's truth value of an optional string: \<^verbatim>\<open>None\<close> and \<^verbatim>\<open>''\<close> are false.\<close>

fun truthy :: "string option \<Rightarrow> bool" where
  "truthy None = False"
| "truthy (Some s) = (s \<noteq> [])"

subsection \<open>The pandas operations the script calls\<close>

text \<open>\<^verbatim>\<open>len(obj)\<close>: the rows of a frame, the entries of a series.\<close>

fun py_len :: "'v pdobj \<Rightarrow> nat" where
  "py_len (Frame d) = length (rows d)"
| "py_len (Series s) = length s"

text \<open>\<^verbatim>\<open>obj.isnull().sum().sum()\<close>: the number of null cells.\<close>

definition null_count :: "'v dataframe \<Rightarrow> nat" where
  "null_count d = sum_list (map (\<lambda>r. length (filter (\<lambda>c. c = None) (snd r))) (rows d))"

fun isnull_sum :: "'v pdobj \<Rightarrow> nat" where
  "isnull_sum (Frame d) = null_count d"
| "isnull_sum (Series s) = length (filter (\<lambda>e. snd e = None) s)"

text \<open>
  \<^verbatim>\<open>obj.dropna()\<close> with its defaults: of a frame the rows without a null cell
  (\<^verbatim>\<open>how='any'\<close>), of a series the entries that are not null.
\<close>

definition dropna :: "'v dataframe \<Rightarrow> 'v dataframe" where
  "dropna d = d\<lparr>rows := filter (\<lambda>r. list_all (\<lambda>c. c \<noteq> None) (snd r)) (rows d)\<rparr>"

fun obj_dropna :: "'v pdobj \<Rightarrow> 'v pdobj" where
  "obj_dropna (Frame d) = Frame (dropna d)"
| "obj_dropna (Series s) = Series (filter (\<lambda>e. snd e \<noteq> None) s)"

text \<open>\<^verbatim>\<open>obj.fillna(value)\<close> with a scalar.\<close>

definition fill_cell :: "'v \<Rightarrow> 'v cell \<Rightarrow> 'v cell" where
  "fill_cell v c = (case c of None \<Rightarrow> Some v | Some x \<Rightarrow> Some x)"

definition fillna :: "'v \<Rightarrow> 'v dataframe \<Rightarrow> 'v dataframe" where
  "fillna v d = d\<lparr>rows := map (\<lambda>r. (fst r, map (fill_cell v) (snd r))) (rows d)\<rparr>"

fun obj_fillna :: "'v \<Rightarrow> 'v pdobj \<Rightarrow> 'v pdobj" where
  "obj_fillna v (Frame d) = Frame (fillna v d)"
| "obj_fillna v (Series s) = Series (map (\<lambda>e. (fst e, fill_cell v (snd e))) s)"

text \<open>
  \<^verbatim>\<open>df[col_list]\<close>: the columns carrying the requested labels, label by label in the
  order of the request; a label that no column carries is a \<^verbatim>\<open>KeyError\<close>.
\<close>

definition positions_of :: "string list \<Rightarrow> string \<Rightarrow> nat list" where
  "positions_of cols c = filter (\<lambda>i. cols ! i = c) [0..<length cols]"

definition getitem_list :: "string list \<Rightarrow> 'v dataframe \<Rightarrow> py_exception + 'v dataframe" where
  "getitem_list col_list d =
     (if \<not> set col_list \<subseteq> set (columns d) then Inl KeyError
      else
        let pos = concat (map (positions_of (columns d)) col_list)
        in Inr \<lparr>columns = map (\<lambda>i. columns d ! i) pos,
                rows = map (\<lambda>r. (fst r, map (\<lambda>i. snd r ! i) pos)) (rows d)\<rparr>)"

text \<open>
  \<^verbatim>\<open>df.query(expr)\<close> evaluates the expression and indexes the frame with the answer
  (\<^verbatim>\<open>df.loc[answer]\<close>). A boolean mask keeps the rows whose entry is true and must
  have one entry per row. A list of labels gives, label by label, the rows carrying
  that label, so a row can come several times; a label that no row carries is a
  \<^verbatim>\<open>KeyError\<close>. A single label gives the row carrying it as a Series (the frame of
  the rows carrying it when there are several).
\<close>

definition rows_labelled :: "'v \<Rightarrow> 'v dataframe \<Rightarrow> ('v \<times> 'v cell list) list" where
  "rows_labelled l d = filter (\<lambda>r. fst r = l) (rows d)"

definition loc :: "'v query_answer \<Rightarrow> 'v dataframe \<Rightarrow> py_exception + 'v pdobj" where
  "loc answer d =
     (case answer of
        Mask marks \<Rightarrow>
          if length marks \<noteq> length (rows d) then Inl IndexError
          else Inr (Frame (d\<lparr>rows := map fst (filter snd (zip (rows d) marks))\<rparr>))
      | Labels ls \<Rightarrow>
          if list_ex (\<lambda>l. rows_labelled l d = []) ls then Inl KeyError
          else Inr (Frame (d\<lparr>rows := concat (map (\<lambda>l. rows_labelled l d) ls)\<rparr>))
      | Label l \<Rightarrow>
          (case rows_labelled l d of
             [] \<Rightarrow> Inl KeyError
           | [r] \<Rightarrow> Inr (Series (zip (columns d) (snd r)))
           | r # rs \<Rightarrow> Inr (Frame (d\<lparr>rows := r # rs\<rparr>)))
      | Other x \<Rightarrow> x)"

definition query :: "'v env \<Rightarrow> string \<Rightarrow> 'v dataframe \<Rightarrow> py_exception + 'v pdobj" where
  "query E expr d =
     (case eval_query E expr d of
        Inl e \<Rightarrow> Inl e
      | Inr answer \<Rightarrow> loc answer d)"

text \<open>
  \<^verbatim>\<open>df.duplicated(subset, keep='first')\<close> marks a row whose key has been seen in an
  earlier row; \<^verbatim>\<open>df.drop_duplicates(subset)\<close> keeps the unmarked rows. The key of a
  row is made of its cells in the columns whose label is in the subset (all columns
  when the subset is \<^verbatim>\<open>None\<close>). An empty frame is returned as it is; a label that is
  not a column is a \<^verbatim>\<open>KeyError\<close>; with an empty list of labels there is no key column
  to unpack and pandas raises \<^verbatim>\<open>ValueError\<close>.
\<close>

fun duplicated :: "'k list \<Rightarrow> 'k list \<Rightarrow> bool list" where
  "duplicated seen [] = []"
| "duplicated seen (k # ks) = (k \<in> set seen) # duplicated (k # seen) ks"

definition row_key ::
  "string list \<Rightarrow> string list \<Rightarrow> 'v \<times> 'v cell list \<Rightarrow> 'v cell list" where
  "row_key cols labels r =
     map (\<lambda>i. snd r ! i) (filter (\<lambda>i. cols ! i \<in> set labels) [0..<length cols])"

definition drop_duplicates ::
  "string list option \<Rightarrow> 'v dataframe \<Rightarrow> py_exception + 'v dataframe" where
  "drop_duplicates subset_arg d =
     (if rows d = [] \<or> columns d = [] then Inr d
      else
        let s = (case subset_arg of None \<Rightarrow> columns d | Some labels \<Rightarrow> labels)
        in if \<not> set s \<subseteq> set (columns d) then Inl KeyError
           else if s = [] then Inl ValueError
           else
             let marks = duplicated [] (map (row_key (columns d) s) (rows d))
             in Inr (d\<lparr>rows := map fst (filter (\<lambda>(r, m). \<not> m) (zip (rows d) marks))\<rparr>))"

text \<open>
  \<^verbatim>\<open>df.sort_values(by=label, ascending=flag)\<close> with its other defaults
  (\<^verbatim>\<open>na_position='last'\<close>). pandas splits the positions of the key column into those
  of null and of non-null cells, hands the non-null values to the sorting kernel (for a
  descending sort it reverses them before and reverses the answer after), appends the
  positions of the null cells, and takes the rows in that order. A label that several
  columns carry is a \<^verbatim>\<open>ValueError\<close>.
\<close>

definition nargsort :: "('v list \<Rightarrow> nat list) \<Rightarrow> 'v cell list \<Rightarrow> bool \<Rightarrow> nat list" where
  "nargsort srt items ascending =
     (let idx = [0..<length items];
          non_nan_idx0 = filter (\<lambda>i. items ! i \<noteq> None) idx;
          nan_idx = filter (\<lambda>i. items ! i = None) idx;
          non_nan_idx = (if ascending then non_nan_idx0 else rev non_nan_idx0);
          non_nans = map (\<lambda>i. the (items ! i)) non_nan_idx;
          indexer0 = map (\<lambda>j. non_nan_idx ! j) (srt non_nans);
          indexer = (if ascending then indexer0 else rev indexer0)
      in indexer @ nan_idx)"

definition sort_values ::
  "('v list \<Rightarrow> nat list) \<Rightarrow> string \<Rightarrow> bool \<Rightarrow> 'v dataframe \<Rightarrow> py_exception + 'v dataframe" where
  "sort_values srt by ascending d =
     (case positions_of (columns d) by of
        [] \<Rightarrow> Inl KeyError
      | [p] \<Rightarrow>
          let indexer = nargsort srt (map (\<lambda>r. snd r ! p) (rows d)) ascending
          in Inr (d\<lparr>rows := map (\<lambda>i. rows d ! i) indexer\<rparr>)
      | _ \<Rightarrow> Inl ValueError)"

subsection \<open>The methods of \<^verbatim>\<open>CSVProcessor\<close>\<close>

text \<open>
  A method takes the processor and returns it updated, next to the value the Python
  method returns. A method that lets an exception escape returns \<open>Inl\<close> with the
  exception and the processor as it was when the exception was raised.
\<close>

definition logger :: "'v log_msg \<Rightarrow> 'v processor \<Rightarrow> 'v processor" where
  "logger m p = p\<lparr>logged := logged p @ [m]\<rparr>"

definition init :: "string \<Rightarrow> 'v processor" where
  "init path = \<lparr>input_file = path, df = None, original_rows = 0, logged = [], written = []\<rparr>"

definition load_csv :: "'v env \<Rightarrow> string \<Rightarrow> string \<Rightarrow> 'v processor \<Rightarrow> bool \<times> 'v processor" where
  "load_csv E encoding delimiter p =
     (let p1 = logger (Info_Loading (input_file p)) p
      in case read_csv E (input_file p) encoding delimiter of
           Inl e \<Rightarrow> (False, logger (Error_Load e) p1)
         | Inr f \<Rightarrow>
             (let d = frame_of f;
                  p2 = p1\<lparr>df := Some (Frame d), original_rows := length (rows d)\<rparr>
              in (True, logger (Info_Loaded (original_rows p2) (length (columns d))) p2)))"

text \<open>
  \<^verbatim>\<open>show_info\<close> prints nothing without a frame. A Series has no \<^verbatim>\<open>columns\<close>, and
  \<^verbatim>\<open>self.df[col]\<close> has no \<^verbatim>\<open>dtype\<close> when several columns carry the label: the
  \<^verbatim>\<open>AttributeError\<close> escapes after the lines printed so far. The type that the line
  of a column shows is not modelled.
\<close>

definition show_info :: "'v processor \<Rightarrow> py_exception \<times> 'v processor + 'v processor" where
  "show_info p =
     (case df p of
        None \<Rightarrow> Inr p
      | Some (Series s) \<Rightarrow>
          Inl (AttributeError, logger (Print_Info_Partial (length s) None []) p)
      | Some (Frame d) \<Rightarrow>
          (let descr = (\<lambda>i. (columns d ! i,
                              length (filter (\<lambda>r. snd r ! i = None) (rows d))));
               printable = takeWhile
                 (\<lambda>i. length (positions_of (columns d) (columns d ! i)) = 1)
                 [0..<length (columns d)]
           in if length printable = length (columns d) then
                Inr (logger (Print_Info (length (rows d)) (length (columns d))
                               (map descr printable)) p)
              else
                Inl (AttributeError,
                     logger (Print_Info_Partial (length (rows d))
                               (Some (length (columns d))) (map descr printable)) p)))"

text \<open>
  \<^verbatim>\<open>select_columns\<close> returns \<^verbatim>\<open>None\<close> (a bare \<^verbatim>\<open>return\<close>) for an empty request,
  \<^verbatim>\<open>False\<close> when a requested name is missing and \<^verbatim>\<open>True\<close> otherwise.
\<close>

definition select_columns ::
  "string option \<Rightarrow> 'v processor \<Rightarrow> py_exception \<times> 'v processor + bool option \<times> 'v processor" where
  "select_columns cols p =
     (case cols of
        None \<Rightarrow> Inr (None, p)
      | Some cs \<Rightarrow>
          if cs = [] then Inr (None, p)
          else
            let col_list = map strip (split_on CHR '','' cs)
            in (case df p of
                  None \<Rightarrow> Inl (AttributeError, p)
                | Some (Series s) \<Rightarrow> Inl (AttributeError, p)
                | Some (Frame d) \<Rightarrow>
                    (let missing = set col_list - set (columns d)
                     in if missing \<noteq> {} then
                          Inr (Some False, logger (Error_ColumnsNotFound missing) p)
                        else
                          (let p1 = logger (Info_Selecting col_list) p
                           in (case getitem_list col_list d of
                                 Inl e \<Rightarrow> Inl (e, p1)
                               | Inr d' \<Rightarrow>
                                   Inr (Some True, p1\<lparr>df := Some (Frame d')\<rparr>))))))"

text \<open>
  \<^verbatim>\<open>filter_rows\<close>: everything after the test of the expression is inside the
  \<^verbatim>\<open>try\<close>. Whatever \<^verbatim>\<open>query\<close> returns becomes \<^verbatim>\<open>self.df\<close>; the number reported
  as filtered out is the difference of the two lengths.
\<close>

definition filter_rows :: "'v env \<Rightarrow> string option \<Rightarrow> 'v processor \<Rightarrow> bool \<times> 'v processor" where
  "filter_rows E filter_expr p =
     (if \<not> truthy filter_expr then (True, p)
      else
        let p1 = logger (Info_ApplyingFilter (the filter_expr)) p
        in (case df p1 of
              None \<Rightarrow> (False, logger (Error_Filter TypeError) p1)
            | Some (Series s) \<Rightarrow> (False, logger (Error_Filter AttributeError) p1)
            | Some (Frame d) \<Rightarrow>
                (let initial_rows = length (rows d)
                 in (case query E (the filter_expr) d of
                       Inl e \<Rightarrow> (False, logger (Error_Filter e) p1)
                     | Inr obj \<Rightarrow>
                         (let filtered_rows = int initial_rows - int (py_len obj)
                          in (True, logger (Info_Filtered filtered_rows (py_len obj))
                                      (p1\<lparr>df := Some obj\<rparr>)))))))"

definition sort_data ::
  "'v env \<Rightarrow> string option \<Rightarrow> bool \<Rightarrow> 'v processor \<Rightarrow> py_exception \<times> 'v processor + bool \<times> 'v processor" where
  "sort_data E sort_column ascending p =
     (if \<not> truthy sort_column then Inr (True, p)
      else
        let c = the sort_column
        in (case df p of
              None \<Rightarrow> Inl (AttributeError, p)
            | Some (Series s) \<Rightarrow> Inl (AttributeError, p)
            | Some (Frame d) \<Rightarrow>
                if c \<notin> set (columns d) then
                  Inr (False, logger (Error_SortColumnNotFound c) p)
                else
                  (let p1 = logger (Info_Sorting c ascending) p
                   in (case sort_values (argsort E) c ascending d of
                         Inl e \<Rightarrow> Inl (e, p1)
                       | Inr d' \<Rightarrow> Inr (True, p1\<lparr>df := Some (Frame d')\<rparr>)))))"

text \<open>
  \<^verbatim>\<open>remove_duplicates\<close>: \<^verbatim>\<open>Series.drop_duplicates\<close> takes no \<^verbatim>\<open>subset\<close>, so on a
  Series the call is a \<^verbatim>\<open>TypeError\<close>.
\<close>

definition remove_duplicates ::
  "string list option \<Rightarrow> 'v processor \<Rightarrow> py_exception \<times> 'v processor + bool \<times> 'v processor" where
  "remove_duplicates subset_arg p =
     (case df p of
        None \<Rightarrow> Inl (TypeError, p)
      | Some (Series s) \<Rightarrow> Inl (TypeError, p)
      | Some (Frame d) \<Rightarrow>
          (let initial_rows = length (rows d)
           in (case drop_duplicates subset_arg d of
                 Inl e \<Rightarrow> Inl (e, p)
               | Inr d' \<Rightarrow>
                   (let p1 = p\<lparr>df := Some (Frame d')\<rparr>;
                        removed = int initial_rows - int (length (rows d'))
                    in Inr (True, if removed > 0
                                  then logger (Info_RemovedDuplicates removed) p1
                                  else p1)))))"

text \<open>
  \<^verbatim>\<open>fill_missing(method, value)\<close>: the default replacement is the number \<open>0\<close>; a
  method that is neither \<^verbatim>\<open>'drop'\<close> nor \<^verbatim>\<open>'fill'\<close> falls through both branches.
\<close>

definition fill_missing ::
  "string \<Rightarrow> 'v::zero option \<Rightarrow> 'v processor \<Rightarrow> py_exception \<times> 'v processor + bool \<times> 'v processor" where
  "fill_missing method val p =
     (case df p of
        None \<Rightarrow> Inl (AttributeError, p)
      | Some obj \<Rightarrow>
          if isnull_sum obj = 0 then Inr (True, logger Info_NoMissing p)
          else
            let p1 = logger (Info_FoundMissing (isnull_sum obj)) p
            in if method = ''drop'' then
                 Inr (True, logger Info_Dropped (p1\<lparr>df := Some (obj_dropna obj)\<rparr>))
               else if method = ''fill'' then
                 let fill_value = (case val of Some v \<Rightarrow> v | None \<Rightarrow> 0)
                 in Inr (True, logger (Info_Filled fill_value)
                                 (p1\<lparr>df := Some (obj_fillna fill_value obj)\<rparr>))
               else Inr (True, p1))"

text \<open>
  \<^verbatim>\<open>save_file\<close>: the format is the lower-cased suffix of the path without its dot
  unless one is given; everything from the first log line on is inside the
  \<^verbatim>\<open>try\<close>, so no exception escapes.
\<close>

definition save_file ::
  "'v env \<Rightarrow> string \<Rightarrow> string option \<Rightarrow> 'v processor \<Rightarrow> bool \<times> 'v processor" where
  "save_file E output_file file_format p =
     (let fmt = (case file_format of
                   None \<Rightarrow> remove_dots (lower (path_suffix E output_file))
                 | Some f \<Rightarrow> f);
          p1 = logger (Info_Saving output_file fmt) p
      in if fmt \<in> set [''csv'', ''txt'', ''xlsx'', ''excel'', ''json''] then
           (case df p1 of
              None \<Rightarrow> (False, logger (Error_Save AttributeError) p1)
            | Some obj \<Rightarrow>
                (case write_file E output_file fmt obj of
                   Some e \<Rightarrow> (False, logger (Error_Save e) p1)
                 | None \<Rightarrow>
                     (True, logger Info_Saved
                              (p1\<lparr>written := written p1 @ [(output_file, fmt, obj)]\<rparr>))))
         else (False, logger (Error_UnsupportedFormat fmt) p1))"

text \<open>
  \<^verbatim>\<open>show_summary\<close> prints its lines one by one: without an object the second line
  fails (\<^verbatim>\<open>len(None)\<close>), on a Series the last one (no \<^verbatim>\<open>columns\<close>).
\<close>

definition show_summary :: "'v processor \<Rightarrow> py_exception \<times> 'v processor + 'v processor" where
  "show_summary p =
     (case df p of
        None \<Rightarrow> Inl (TypeError, logger (Print_Summary_Partial (original_rows p) None) p)
      | Some (Series s) \<Rightarrow>
          Inl (AttributeError,
               logger (Print_Summary_Partial (original_rows p)
                         (Some (length s, int (original_rows p) - int (length s)))) p)
      | Some (Frame d) \<Rightarrow>
          Inr (logger (Print_Summary (original_rows p) (length (rows d))
                         (int (original_rows p) - int (length (rows d)))
                         (length (columns d))) p))"

subsection \<open>The driver \<^verbatim>\<open>main\<close>\<close>

text \<open>The parsed command line (\<^verbatim>\<open>args\<close>); parsing itself is \<^verbatim>\<open>argparse\<close>'s.\<close>

record 'v args =
  arg_input :: string
  arg_output :: string
  arg_columns :: "string option"
  arg_filter :: "string option"
  arg_sort :: "string option"
  arg_descending :: bool
  arg_remove_duplicates :: bool
  arg_fill_missing :: "string option"
  arg_fill_value :: "'v option"
  arg_info :: bool
  arg_delimiter :: string
  arg_encoding :: string

text \<open>
  A step of \<^verbatim>\<open>main\<close> either ends the process (\<open>Inl\<close>, with the exit status) or hands
  the processor to the next step (\<open>Inr\<close>). An exception that nothing catches ends the
  process with Python's exit status 1.
\<close>

type_synonym 'v step = "int \<times> 'v processor + 'v processor"

definition uncaught :: "py_exception \<times> 'v processor \<Rightarrow> 'v step" where
  "uncaught x = Inl (1, snd x)"

definition and_then :: "'v step \<Rightarrow> ('v processor \<Rightarrow> 'v step) \<Rightarrow> 'v step" where
  "and_then r f = (case r of Inl x \<Rightarrow> Inl x | Inr p \<Rightarrow> f p)"

text \<open>\<^verbatim>\<open>if args.info: processor.show_info(); sys.exit(0)\<close>\<close>

definition main_info :: "'v processor \<Rightarrow> int \<times> 'v processor" where
  "main_info p =
     (case show_info p of
        Inl x \<Rightarrow> (1, snd x)
      | Inr p' \<Rightarrow> (0, p'))"

text \<open>\<^verbatim>\<open>if args.columns: if not processor.select_columns(args.columns): sys.exit(1)\<close>\<close>

definition main_columns :: "'v args \<Rightarrow> 'v processor \<Rightarrow> 'v step" where
  "main_columns a p =
     (if truthy (arg_columns a) then
        (case select_columns (arg_columns a) p of
           Inl x \<Rightarrow> uncaught x
         | Inr (r, p') \<Rightarrow> if r = Some True then Inr p' else Inl (1, p'))
      else Inr p)"

text \<open>\<^verbatim>\<open>if args.filter: if not processor.filter_rows(args.filter): sys.exit(1)\<close>\<close>

definition main_filter :: "'v env \<Rightarrow> 'v args \<Rightarrow> 'v processor \<Rightarrow> 'v step" where
  "main_filter E a p =
     (if truthy (arg_filter a) then
        (case filter_rows E (arg_filter a) p of
           (r, p') \<Rightarrow> if r then Inr p' else Inl (1, p'))
      else Inr p)"

text \<open>\<^verbatim>\<open>if args.remove_duplicates: processor.remove_duplicates()\<close>\<close>

definition main_remove_duplicates :: "'v args \<Rightarrow> 'v processor \<Rightarrow> 'v step" where
  "main_remove_duplicates a p =
     (if arg_remove_duplicates a then
        (case remove_duplicates None p of
           Inl x \<Rightarrow> uncaught x
         | Inr (r, p') \<Rightarrow> Inr p')
      else Inr p)"

text \<open>
  \<^verbatim>\<open>if args.fill_missing: processor.fill_missing(method=args.fill_missing,
  value=args.fill_value)\<close>
\<close>

definition main_fill_missing :: "'v::zero args \<Rightarrow> 'v processor \<Rightarrow> 'v step" where
  "main_fill_missing a p =
     (if truthy (arg_fill_missing a) then
        (case fill_missing (the (arg_fill_missing a)) (arg_fill_value a) p of
           Inl x \<Rightarrow> uncaught x
         | Inr (r, p') \<Rightarrow> Inr p')
      else Inr p)"

text \<open>
  \<^verbatim>\<open>if args.sort: processor.sort_data(args.sort, ascending=not args.descending)\<close>:
  the value that \<^verbatim>\<open>sort_data\<close> returns is not looked at.
\<close>

definition main_sort :: "'v env \<Rightarrow> 'v args \<Rightarrow> 'v processor \<Rightarrow> 'v step" where
  "main_sort E a p =
     (if truthy (arg_sort a) then
        (case sort_data E (arg_sort a) (\<not> arg_descending a) p of
           Inl x \<Rightarrow> uncaught x
         | Inr (r, p') \<Rightarrow> Inr p')
      else Inr p)"

text \<open>
  \<^verbatim>\<open>if not processor.save_file(args.output): sys.exit(1)\<close>, then the summary and the
  last log line; returning from \<^verbatim>\<open>main\<close> is exit status 0.
\<close>

definition main_save :: "'v env \<Rightarrow> 'v args \<Rightarrow> 'v processor \<Rightarrow> 'v step" where
  "main_save E a p =
     (case save_file E (arg_output a) None p of
        (r, p') \<Rightarrow>
          if \<not> r then Inl (1, p')
          else (case show_summary p' of
                  Inl x \<Rightarrow> uncaught x
                | Inr p'' \<Rightarrow> Inl (0, logger Info_Completed p'')))"

definition process_data :: "'v::zero env \<Rightarrow> 'v args \<Rightarrow> 'v processor \<Rightarrow> 'v step" where
  "process_data E a p =
     and_then (and_then (and_then (and_then (and_then (main_columns a p)
       (main_filter E a)) (main_remove_duplicates a)) (main_fill_missing a))
       (main_sort E a)) (main_save E a)"

text \<open>The run of the script: its exit status and the processor at the end.\<close>

definition main :: "'v::zero env \<Rightarrow> 'v args \<Rightarrow> int \<times> 'v processor" where
  "main E a =
     (case load_csv E (arg_encoding a) (arg_delimiter a) (init (arg_input a)) of
        (ok, p) \<Rightarrow>
          if \<not> ok then (1, p)
          else if arg_info a then main_info p
          else (case process_data E a p of
                  Inl x \<Rightarrow> x
                | Inr p' \<Rightarrow> (0, p')))"

subsection \<open>Columns, contract of the sorting kernel\<close>

text \<open>The cells of the column at position \<open>k\<close>, in row order.\<close>

definition column_at :: "nat \<Rightarrow> 'v dataframe \<Rightarrow> 'v cell list" where
  "column_at k d = map (\<lambda>r. snd r ! k) (rows d)"

text \<open>
  What NumPy promises of \<^verbatim>\<open>argsort\<close> on the values \<open>ks\<close>, whatever the \<^verbatim>\<open>kind\<close>: the
  answer holds every position of \<open>ks\<close> once, and reading \<open>ks\<close> in that order gives
  ascending values. Nothing in it says where equal values go.
\<close>

definition argsort_ok :: "('v::linorder list \<Rightarrow> nat list) \<Rightarrow> 'v list \<Rightarrow> bool" where
  "argsort_ok srt ks \<longleftrightarrow>
     sort (srt ks) = [0..<length ks] \<and> sorted (map (\<lambda>j. ks ! j) (srt ks))"

text \<open>The non-null values of a list of cells, in order.\<close>

definition non_nulls :: "'v cell list \<Rightarrow> 'v list" where
  "non_nulls items = map the (filter (\<lambda>c. c \<noteq> None) items)"

subsection \<open>Small runs, used to evaluate the definitions\<close>

definition example_frame :: "int dataframe" where
  "example_frame =
     \<lparr>columns = [''a'', ''b''],
      rows = [(0, [Some 2, Some 7]), (1, [Some 1, None]), (2, [Some 2, Some 7])]\<rparr>"

lift_definition example_csv :: "int csv_frame" is example_frame
  by (simp add: example_frame_def equal_row_count_def)

text \<open>
  The evaluator of the example answers three expressions as pandas does on
  \<open>example_frame\<close>: a comparison with a mask, a list literal with its labels, a number
  with that label.
\<close>

definition example_env :: "int env" where
  "example_env =
     \<lparr>read_csv = (\<lambda>path encoding delimiter. Inr example_csv),
      eval_query = (\<lambda>expr d.
        if expr = ''a == 2'' then Inr (Mask (map (\<lambda>r. snd r ! 0 = Some 2) (rows d)))
        else if expr = ''[0, 0, 0, 0]'' then Inr (Labels [0, 0, 0, 0])
        else if expr = ''1'' then Inr (Label 1)
        else Inl (OtherException ''not evaluated'')),
      argsort = (\<lambda>ks. sort_key (\<lambda>j. ks ! j) [0..<length ks]),
      path_suffix = (\<lambda>path. ''.CSV''),
      write_file = (\<lambda>path fmt obj. None)\<rparr>"

definition example_args :: "int args" where
  "example_args =
     \<lparr>arg_input = ''in.csv'', arg_output = ''out.CSV'', arg_columns = None,
      arg_filter = None, arg_sort = None, arg_descending = False,
      arg_remove_duplicates = False, arg_fill_missing = None, arg_fill_value = None,
      arg_info = False, arg_delimiter = '','', arg_encoding = ''utf-8''\<rparr>"

definition example_processor :: "int processor" where
  "example_processor =
     \<lparr>input_file = ''in.csv'', df = Some (Frame example_frame), original_rows = 3,
      logged = [], written = []\<rparr>"

text \<open>A frame to sort by \<^verbatim>\<open>a\<close>: three different values and a null.\<close>

definition sort_frame :: "int dataframe" where
  "sort_frame =
     \<lparr>columns = [''a'', ''b''],
      rows = [(0, [Some 3, Some 7]), (1, [None, Some 8]),
              (2, [Some 1, Some 9]), (3, [Some 2, None])]\<rparr>"

definition sort_processor :: "int processor" where
  "sort_processor =
     \<lparr>input_file = ''in.csv'', df = Some (Frame sort_frame), original_rows = 4,
      logged = [], written = []\<rparr>"

text \<open>What selecting \<^verbatim>\<open>a,a\<close> from \<open>example_frame\<close> gives: two columns named \<^verbatim>\<open>a\<close>.\<close>

definition repeated_frame :: "int dataframe" where
  "repeated_frame =
     \<lparr>columns = [''a'', ''a''],
      rows = [(0, [Some 2, Some 2]), (1, [Some 1, Some 1]), (2, [Some 2, Some 2])]\<rparr>"

section \<open>Properties\<close>

subsection \<open>Facts about the pandas operations\<close>

lemma no_null_cells: "length (filter (\<lambda>c. c = None) cs) = 0 \<longleftrightarrow> None \<notin> set cs"
  by (induction cs) auto

lemma null_count_0_iff:
  "null_count d = 0 \<longleftrightarrow> (\<forall>r \<in> set (rows d). None \<notin> set (snd r))"
  unfolding null_count_def by (simp only: sum_list_eq_0_iff set_map ball_simps no_null_cells)

lemma no_null_conv: "list_all (\<lambda>c. c \<noteq> None) cs \<longleftrightarrow> None \<notin> set cs"
  by (induction cs) (auto, metis option.exhaust)

lemma dropna_rows: "rows (dropna d) = filter (\<lambda>r. None \<notin> set (snd r)) (rows d)"
  unfolding dropna_def no_null_conv by simp

lemma dropna_columns: "columns (dropna d) = columns d"
  by (simp add: dropna_def)

lemma fill_cell_conv: "fill_cell v c = (if c = None then Some v else c)"
  by (cases c) (simp_all add: fill_cell_def)

lemma fillna_rows:
  "rows (fillna v d) =
     map (\<lambda>r. (fst r, map (\<lambda>c. if c = None then Some v else c) (snd r))) (rows d)"
  by (simp add: fillna_def fill_cell_conv [abs_def])

lemma fillna_columns: "columns (fillna v d) = columns d"
  by (simp add: fillna_def)

lemma no_nulls_filter:
  "null_count d = 0 \<Longrightarrow> filter (\<lambda>r. None \<notin> set (snd r)) (rows d) = rows d"
  by (simp add: null_count_0_iff)

lemma no_nulls_fill:
  assumes "null_count d = 0"
  shows "map (\<lambda>r. (fst r, map (\<lambda>c. if c = None then Some v else c) (snd r))) (rows d) = rows d"
proof (rule map_idI)
  fix r assume r: "r \<in> set (rows d)"
  with assms have "None \<notin> set (snd r)"
    by (simp add: null_count_0_iff)
  then have "map (\<lambda>c. if c = None then Some v else c) (snd r) = snd r"
    by (intro map_idI) (auto, metis option.exhaust)
  then show "(fst r, map (\<lambda>c. if c = None then Some v else c) (snd r)) = r"
    by simp
qed

lemma example_processor_df: "df example_processor = Some (Frame example_frame)"
  by (simp add: example_processor_def)

subsection \<open>The driver and a failed sort\<close>

text \<open>
  C1. Asked to sort by a column that the Dataset does not have, \<^verbatim>\<open>sort_data\<close> logs
  the error, leaves the Dataset as it was and returns \<^verbatim>\<open>False\<close>. The claim goes on:
  the remaining stages are skipped, no file is written and the exit status is not zero.
  The run below is the script on a file with the columns \<^verbatim>\<open>a\<close> and \<^verbatim>\<open>b\<close> and
  \<^verbatim>\<open>--sort zzz\<close>: \<^verbatim>\<open>main\<close> does not look at what \<^verbatim>\<open>sort_data\<close> returned, so it
  saves the unsorted Dataset, prints the summary and ends with status 0.
\<close>

theorem main_ignores_failed_sort:
  "sort_data example_env (Some ''zzz'') True example_processor =
     Inr (False, example_processor\<lparr>logged := [Error_SortColumnNotFound ''zzz'']\<rparr>) \<and>
   main example_env (example_args\<lparr>arg_sort := Some ''zzz''\<rparr>) =
     (0, \<lparr>input_file = ''in.csv'', df = Some (Frame example_frame), original_rows = 3,
          logged = [Info_Loading ''in.csv'', Info_Loaded 3 2,
                    Error_SortColumnNotFound ''zzz'', Info_Saving ''out.CSV'' ''csv'',
                    Info_Saved, Print_Summary 3 3 0 2, Info_Completed],
          written = [(''out.CSV'', ''csv'', Frame example_frame)]\<rparr>)"
  by code_simp

subsection \<open>Column selection with missing names\<close>

text \<open>
  C4. When a requested name is not a column of the Dataset, \<^verbatim>\<open>select_columns\<close>
  returns \<^verbatim>\<open>False\<close>; the one message it logs carries the set of all requested names
  that are missing; the Dataset and everything else in the processor stay as they were.
  In \<^verbatim>\<open>main\<close> (after a successful load, not an info-only run) the process then ends
  with exit status 1, and no file has been written.
\<close>

theorem select_missing_columns_aborts:
  assumes "df p = Some (Frame d)" and "cs \<noteq> []"
    and "missing = set (map strip (split_on CHR '','' cs)) - set (columns d)"
    and "missing \<noteq> {}"
  shows "select_columns (Some cs) p =
           Inr (Some False, p\<lparr>logged := logged p @ [Error_ColumnsNotFound missing]\<rparr>) \<and>
         (load_csv E (arg_encoding a) (arg_delimiter a) (init (arg_input a)) = (True, p) \<and>
          \<not> arg_info a \<and> arg_columns a = Some cs \<longrightarrow>
            main E a = (1, p\<lparr>logged := logged p @ [Error_ColumnsNotFound missing]\<rparr>) \<and>
            written p = [])"
proof -
  have sel: "select_columns (Some cs) p =
           Inr (Some False, p\<lparr>logged := logged p @ [Error_ColumnsNotFound missing]\<rparr>)"
    using assms by (simp add: select_columns_def logger_def Let_def)
  have wr: "written p = []"
    if "load_csv E (arg_encoding a) (arg_delimiter a) (init (arg_input a)) = (True, p)"
    using that by (auto simp: load_csv_def init_def logger_def Let_def split: sum.splits)
  have "main E a = (1, p\<lparr>logged := logged p @ [Error_ColumnsNotFound missing]\<rparr>)"
    if "load_csv E (arg_encoding a) (arg_delimiter a) (init (arg_input a)) = (True, p)"
      and "\<not> arg_info a" and "arg_columns a = Some cs"
    using that sel assms(2)
    by (simp add: main_def process_data_def main_columns_def and_then_def)
  with sel wr show ?thesis by blast
qed

theorem select_missing_columns_aborts_witness:
  "select_columns (Some ''a, c ,d'') example_processor =
     Inr (Some False, example_processor\<lparr>logged := [Error_ColumnsNotFound {''c'', ''d''}]\<rparr>) \<and>
   main example_env (example_args\<lparr>arg_columns := Some ''a, c ,d''\<rparr>) =
     (1, \<lparr>input_file = ''in.csv'', df = Some (Frame example_frame), original_rows = 3,
          logged = [Info_Loading ''in.csv'', Info_Loaded 3 2,
                    Error_ColumnsNotFound {''c'', ''d''}],
          written = []\<rparr>)"
proof -
  let ?a = "example_args\<lparr>arg_columns := Some ''a, c ,d''\<rparr>"
  let ?p = "\<lparr>input_file = ''in.csv'', df = Some (Frame example_frame), original_rows = 3,
             logged = [Info_Loading ''in.csv'', Info_Loaded 3 2], written = []\<rparr>"
  have missing: "{''c'', ''d''} =
      set (map strip (split_on CHR '','' ''a, c ,d'')) - set (columns example_frame)"
    by code_simp
  have ne: "''a, c ,d'' \<noteq> []" "{''c'', ''d''} \<noteq> ({} :: string set)"
    by simp_all
  have d2: "df ?p = Some (Frame example_frame)"
    by simp
  have load: "load_csv example_env (arg_encoding ?a) (arg_delimiter ?a) (init (arg_input ?a))
                = (True, ?p)"
    by code_simp
  have a: "\<not> arg_info ?a" "arg_columns ?a = Some ''a, c ,d''"
    by (simp_all add: example_args_def)
  from select_missing_columns_aborts
         [OF example_processor_df ne(1) missing ne(2), of example_env ?a]
  have "select_columns (Some ''a, c ,d'') example_processor =
     Inr (Some False, example_processor\<lparr>logged := [Error_ColumnsNotFound {''c'', ''d''}]\<rparr>)"
    by (simp add: example_processor_def)
  moreover
  from select_missing_columns_aborts [OF d2 ne(1) missing ne(2), of example_env ?a] load a
  have "main example_env ?a =
          (1, ?p\<lparr>logged := logged ?p @ [Error_ColumnsNotFound {''c'', ''d''}]\<rparr>)"
    by blast
  ultimately show ?thesis by simp
qed

text \<open>
  The requested names are trimmed as \<^verbatim>\<open>str.strip()\<close> trims them: a no-break space
  after a name goes with the other white space, so \<^verbatim>\<open>a\<close> followed by U+00A0 is the
  column \<^verbatim>\<open>a\<close>.
\<close>

lemma select_trims_no_break_space:
  "select_columns (Some [CHR ''a'', CHR 0xA0, CHR '','', CHR 0x85, CHR ''b'']) example_processor =
     Inr (Some True, example_processor
            \<lparr>logged := [Info_Selecting [''a'', ''b'']], df := Some (Frame example_frame)\<rparr>)"
  by code_simp

subsection \<open>Missing values\<close>

text \<open>
  C6. On a loaded Dataset \<^verbatim>\<open>fill_missing\<close> always returns \<^verbatim>\<open>True\<close> and raises
  nothing. With \<^verbatim>\<open>'drop'\<close> the rows left are exactly the rows without a null cell, in
  their order. With \<^verbatim>\<open>'fill'\<close> every null cell, in every column, holds the replacement
  afterwards (the given value, or \<open>0\<close> when none is given) and every other cell is
  untouched. When the Dataset has no null cell it is left as it is and the one message
  logged says so. The columns are never touched.
\<close>

theorem fill_missing_contract:
  assumes "df p = Some (Frame d)"
  shows "\<exists>p' d'. fill_missing method val p = Inr (True, p') \<and> df p' = Some (Frame d') \<and>
           columns d' = columns d \<and>
           (method = ''drop'' \<longrightarrow>
              rows d' = filter (\<lambda>r. None \<notin> set (snd r)) (rows d)) \<and>
           (method = ''fill'' \<longrightarrow>
              rows d' = map (\<lambda>r. (fst r,
                          map (\<lambda>c. if c = None
                                    then Some (case val of Some v \<Rightarrow> v | None \<Rightarrow> 0)
                                    else c) (snd r))) (rows d)) \<and>
           (null_count d = 0 \<longrightarrow> d' = d \<and> logged p' = logged p @ [Info_NoMissing])"
proof (cases "null_count d = 0")
  case True
  then show ?thesis
    using assms by (simp add: fill_missing_def logger_def no_nulls_filter no_nulls_fill)
next
  case False
  show ?thesis
    using assms False
    by (cases val)
       (simp_all add: fill_missing_def logger_def dropna_rows fillna_rows
          dropna_columns fillna_columns Let_def)
qed

theorem fill_missing_contract_witness:
  "(\<exists>p'. fill_missing ''drop'' None example_processor = Inr (True, p') \<and>
         df p' = Some (Frame (example_frame
                   \<lparr>rows := [(0, [Some 2, Some 7]), (2, [Some 2, Some 7])]\<rparr>))) \<and>
   (\<exists>p'. fill_missing ''fill'' None example_processor = Inr (True, p') \<and>
         df p' = Some (Frame (example_frame
                   \<lparr>rows := [(0, [Some 2, Some 7]), (1, [Some 1, Some 0]),
                             (2, [Some 2, Some 7])]\<rparr>))) \<and>
   (\<exists>p'. fill_missing ''fill'' (Some 9)
            (example_processor\<lparr>df := Some (Frame (example_frame
                                       \<lparr>rows := [(0, [Some 2, Some 7])]\<rparr>))\<rparr>)
          = Inr (True, p') \<and>
         df p' = Some (Frame (example_frame\<lparr>rows := [(0, [Some 2, Some 7])]\<rparr>)) \<and>
         logged p' = [Info_NoMissing])"
proof -
  let ?q = "example_processor\<lparr>df := Some (Frame (example_frame
                                       \<lparr>rows := [(0, [Some 2, Some 7])]\<rparr>))\<rparr>"
  have q: "df ?q = Some (Frame (example_frame\<lparr>rows := [(0, [Some 2, Some 7])]\<rparr>))"
    by simp
  have n: "null_count (example_frame\<lparr>rows := [(0, [Some 2, Some 7])]\<rparr>) = 0"
    by (simp add: null_count_def)
  have lg: "logged ?q = []"
    by (simp add: example_processor_def)
  have r: "rows example_frame =
             [(0, [Some 2, Some 7]), (1, [Some 1, None]), (2, [Some 2, Some 7])]"
    by (simp add: example_frame_def)
  have eq: "d' = example_frame\<lparr>rows := rows d'\<rparr>"
    if "columns d' = columns example_frame" for d' :: "int dataframe"
    using that by (cases d') (simp add: example_frame_def)
  from fill_missing_contract [OF example_processor_df, of "''drop''" None]
  obtain p1 d1 where a1: "fill_missing ''drop'' None example_processor = Inr (True, p1)"
    and b1: "df p1 = Some (Frame d1)" and c1: "columns d1 = columns example_frame"
    and r1: "rows d1 = filter (\<lambda>r. None \<notin> set (snd r)) (rows example_frame)"
    by auto
  have "rows d1 = [(0, [Some 2, Some 7]), (2, [Some 2, Some 7])]"
    unfolding r1 r by simp
  with eq [OF c1] b1
  have "df p1 = Some (Frame (example_frame
                   \<lparr>rows := [(0, [Some 2, Some 7]), (2, [Some 2, Some 7])]\<rparr>))"
    by simp
  with a1 have 1: "\<exists>p'. fill_missing ''drop'' None example_processor = Inr (True, p') \<and>
         df p' = Some (Frame (example_frame
                   \<lparr>rows := [(0, [Some 2, Some 7]), (2, [Some 2, Some 7])]\<rparr>))"
    by blast
  from fill_missing_contract [OF example_processor_df, of "''fill''" None]
  obtain p2 d2 where a2: "fill_missing ''fill'' None example_processor = Inr (True, p2)"
    and b2: "df p2 = Some (Frame d2)" and c2: "columns d2 = columns example_frame"
    and r2: "rows d2 = map (\<lambda>r. (fst r,
                          map (\<lambda>c. if c = None
                                    then Some (case None of Some v \<Rightarrow> v | None \<Rightarrow> 0)
                                    else c) (snd r))) (rows example_frame)"
    by auto
  have "rows d2 = [(0, [Some 2, Some 7]), (1, [Some 1, Some 0]), (2, [Some 2, Some 7])]"
    unfolding r2 r by simp
  with eq [OF c2] b2
  have "df p2 = Some (Frame (example_frame
                   \<lparr>rows := [(0, [Some 2, Some 7]), (1, [Some 1, Some 0]),
                             (2, [Some 2, Some 7])]\<rparr>))"
    by simp
  with a2 have 2: "\<exists>p'. fill_missing ''fill'' None example_processor = Inr (True, p') \<and>
         df p' = Some (Frame (example_frame
                   \<lparr>rows := [(0, [Some 2, Some 7]), (1, [Some 1, Some 0]),
                             (2, [Some 2, Some 7])]\<rparr>))"
    by blast
  from fill_missing_contract [OF q, of "''fill''" "Some 9"]
  obtain p3 d3 where a3: "fill_missing ''fill'' (Some 9) ?q = Inr (True, p3)"
    and b3: "df p3 = Some (Frame d3)"
    and z3: "null_count (example_frame\<lparr>rows := [(0, [Some 2, Some 7])]\<rparr>) = 0 \<longrightarrow>
             d3 = example_frame\<lparr>rows := [(0, [Some 2, Some 7])]\<rparr> \<and>
             logged p3 = logged ?q @ [Info_NoMissing]"
    by auto
  from z3 n lg b3 a3
  have 3: "\<exists>p'. fill_missing ''fill'' (Some 9) ?q = Inr (True, p') \<and>
         df p' = Some (Frame (example_frame\<lparr>rows := [(0, [Some 2, Some 7])]\<rparr>)) \<and>
         logged p' = [Info_NoMissing]"
    by (intro exI [of _ p3]) simp
  from 1 2 3 show ?thesis by blast
qed

text \<open>
  C10. On a Dataset with at least one null cell, a method other than \<^verbatim>\<open>'drop'\<close> and
  \<^verbatim>\<open>'fill'\<close> makes \<^verbatim>\<open>fill_missing\<close> return \<^verbatim>\<open>True\<close> with the Dataset exactly as it
  was: no error is raised or logged. The only trace is the information line with the
  number of null cells, which is logged before the method is looked at.
\<close>

theorem fill_missing_unknown_method:
  assumes "df p = Some (Frame d)" and "null_count d \<noteq> 0"
    and "method \<noteq> ''drop''" and "method \<noteq> ''fill''"
  shows "fill_missing method val p =
           Inr (True, p\<lparr>logged := logged p @ [Info_FoundMissing (null_count d)]\<rparr>)"
  using assms by (simp add: fill_missing_def logger_def)

theorem fill_missing_unknown_method_witness:
  "fill_missing ''mean'' (Some 5) example_processor =
     Inr (True, example_processor\<lparr>logged := [Info_FoundMissing 1]\<rparr>)"
proof -
  have n: "null_count example_frame = 1"
    by (simp add: example_frame_def null_count_def)
  then have nz: "null_count example_frame \<noteq> 0"
    by simp
  have m: "''mean'' \<noteq> ''drop''" "''mean'' \<noteq> ''fill''"
    by simp_all
  from fill_missing_unknown_method [OF example_processor_df nz m, of "Some 5"]
  show ?thesis
    by (simp add: n example_processor_def)
qed

subsection \<open>Row filter\<close>

lemma length_filter_zip_le: "length (filter P (zip xs ms)) \<le> length xs"
  by (rule order_trans [OF length_filter_le]) simp

lemma loc_mask:
  assumes "loc (Mask marks) d = Inr obj"
  shows "obj = Frame (d\<lparr>rows := map fst (filter snd (zip (rows d) marks))\<rparr>) \<and>
         py_len obj \<le> length (rows d)"
  using assms by (auto simp: loc_def length_filter_zip_le split: if_splits)

lemma filter_rows_run:
  assumes "df p = Some (Frame d)" and "truthy fe" and "filter_rows E fe p = (True, p')"
  shows "\<exists>obj. query E (the fe) d = Inr obj \<and>
           p' = p\<lparr>logged := logged p @ [Info_ApplyingFilter (the fe),
                      Info_Filtered (int (length (rows d)) - int (py_len obj)) (py_len obj)],
                  df := Some obj\<rparr>"
proof (cases "query E (the fe) d")
  case (Inl e)
  with assms show ?thesis
    by (simp add: filter_rows_def logger_def Let_def)
next
  case (Inr obj)
  with assms show ?thesis
    by (auto simp: filter_rows_def logger_def Let_def)
qed

text \<open>
  C8, as amended. Without an expression \<^verbatim>\<open>filter_rows\<close> changes nothing. When it
  succeeds on an expression, \<^verbatim>\<open>self.df\<close> is whatever \<^verbatim>\<open>query\<close> returned, and the line
  logged reports as remaining the length of that object and as removed the number of rows
  before minus that length: the two always add up to the number of rows before. When
  the expression evaluates to a boolean mask over the rows, the result is the Dataset
  restricted to the rows marked true: it has no more rows than before, and the number
  reported as removed is not negative.
\<close>

theorem filter_rows_counts:
  assumes "df p = Some (Frame d)" and "filter_rows E fe p = (True, p')"
  shows "(\<not> truthy fe \<longrightarrow> p' = p) \<and>
         (truthy fe \<longrightarrow>
            (\<exists>obj removed.
               df p' = Some obj \<and>
               logged p' = logged p @ [Info_ApplyingFilter (the fe),
                                       Info_Filtered removed (py_len obj)] \<and>
               int (py_len obj) + removed = int (length (rows d)) \<and>
               (\<forall>marks. eval_query E (the fe) d = Inr (Mask marks) \<longrightarrow>
                  obj = Frame (d\<lparr>rows := map fst (filter snd (zip (rows d) marks))\<rparr>) \<and>
                  py_len obj \<le> length (rows d) \<and> 0 \<le> removed)))"
proof (cases "truthy fe")
  case False
  with assms show ?thesis by (simp add: filter_rows_def)
next
  case True
  from filter_rows_run [OF assms(1) True assms(2)] obtain obj where
    q: "query E (the fe) d = Inr obj"
    and p': "p' = p\<lparr>logged := logged p @ [Info_ApplyingFilter (the fe),
                      Info_Filtered (int (length (rows d)) - int (py_len obj)) (py_len obj)],
                  df := Some obj\<rparr>"
    by blast
  have mask: "obj = Frame (d\<lparr>rows := map fst (filter snd (zip (rows d) marks))\<rparr>) \<and>
              py_len obj \<le> length (rows d) \<and>
              0 \<le> int (length (rows d)) - int (py_len obj)"
    if "eval_query E (the fe) d = Inr (Mask marks)" for marks
  proof -
    from q that have "loc (Mask marks) d = Inr obj"
      by (simp add: query_def)
    from loc_mask [OF this]
    have a: "obj = Frame (d\<lparr>rows := map fst (filter snd (zip (rows d) marks))\<rparr>)"
      and b: "py_len obj \<le> length (rows d)"
      by blast+
    from b have "0 \<le> int (length (rows d)) - int (py_len obj)"
      by linarith
    with a b show ?thesis by blast
  qed
  have "df p' = Some obj"
    by (simp add: p')
  moreover have "logged p' = logged p @ [Info_ApplyingFilter (the fe),
                      Info_Filtered (int (length (rows d)) - int (py_len obj)) (py_len obj)]"
    by (simp add: p')
  moreover have "int (py_len obj) + (int (length (rows d)) - int (py_len obj)) =
                 int (length (rows d))"
    by simp
  ultimately show ?thesis
    using True mask
    by (intro conjI impI exI [of _ obj]
              exI [of _ "int (length (rows d)) - int (py_len obj)"]) blast+
qed

theorem filter_rows_counts_witness:
  "filter_rows example_env None example_processor = (True, example_processor) \<and>
   (\<exists>p' obj. filter_rows example_env (Some ''a == 2'') example_processor = (True, p') \<and>
      df p' = Some obj \<and>
      obj = Frame (example_frame\<lparr>rows := [(0, [Some 2, Some 7]), (2, [Some 2, Some 7])]\<rparr>) \<and>
      py_len obj = 2 \<and> length (rows example_frame) = 3 \<and>
      logged p' = [Info_ApplyingFilter ''a == 2'', Info_Filtered 1 2])"
proof -
  have "fst (filter_rows example_env None example_processor)"
    by code_simp
  then have "filter_rows example_env None example_processor =
               (True, snd (filter_rows example_env None example_processor))"
    by (simp add: prod_eq_iff)
  from filter_rows_counts [OF example_processor_df this]
  have "snd (filter_rows example_env None example_processor) = example_processor"
    by simp
  with \<open>fst (filter_rows example_env None example_processor)\<close>
  have run_none: "filter_rows example_env None example_processor = (True, example_processor)"
    by (simp add: prod_eq_iff)
  have run: "filter_rows example_env (Some ''a == 2'') example_processor =
      (True, example_processor
         \<lparr>df := Some (Frame (example_frame
                 \<lparr>rows := [(0, [Some 2, Some 7]), (2, [Some 2, Some 7])]\<rparr>)),
          logged := [Info_ApplyingFilter ''a == 2'', Info_Filtered 1 2]\<rparr>)"
    by code_simp
  have ev: "eval_query example_env ''a == 2'' example_frame = Inr (Mask [True, False, True])"
    by code_simp
  have kept: "map fst (filter snd (zip (rows example_frame) [True, False, True])) =
              [(0, [Some 2, Some 7]), (2, [Some 2, Some 7])]"
    by code_simp
  have n: "length (rows example_frame) = 3"
    by (simp add: example_frame_def)
  have t: "truthy (Some ''a == 2'')"
    by simp
  from filter_rows_counts [OF example_processor_df run] t ev
  obtain obj removed where
    a: "df (example_processor
         \<lparr>df := Some (Frame (example_frame
                 \<lparr>rows := [(0, [Some 2, Some 7]), (2, [Some 2, Some 7])]\<rparr>)),
          logged := [Info_ApplyingFilter ''a == 2'', Info_Filtered 1 2]\<rparr>) = Some obj"
    and b: "obj = Frame (example_frame
              \<lparr>rows := map fst (filter snd (zip (rows example_frame) [True, False, True]))\<rparr>)"
    and c: "py_len obj \<le> length (rows example_frame)"
    by (metis option.sel)
  from b have obj: "obj = Frame (example_frame
                 \<lparr>rows := [(0, [Some 2, Some 7]), (2, [Some 2, Some 7])]\<rparr>)"
    by (simp only: kept)
  then have len: "py_len obj = 2"
    by simp
  have "\<exists>p' obj. filter_rows example_env (Some ''a == 2'') example_processor = (True, p') \<and>
      df p' = Some obj \<and>
      obj = Frame (example_frame\<lparr>rows := [(0, [Some 2, Some 7]), (2, [Some 2, Some 7])]\<rparr>) \<and>
      py_len obj = 2 \<and> length (rows example_frame) = 3 \<and>
      logged p' = [Info_ApplyingFilter ''a == 2'', Info_Filtered 1 2]"
    unfolding run using obj len n
    by (intro exI [of _ "example_processor
         \<lparr>df := Some (Frame (example_frame
                 \<lparr>rows := [(0, [Some 2, Some 7]), (2, [Some 2, Some 7])]\<rparr>)),
          logged := [Info_ApplyingFilter ''a == 2'', Info_Filtered 1 2]\<rparr>"] exI [of _ obj]) simp
  with run_none show ?thesis ..
qed

text \<open>
  C8 as stated has the row count never increase. The expression \<^verbatim>\<open>[0, 0, 0, 0]\<close> is a
  list of row labels: \<^verbatim>\<open>query\<close> takes the row labelled 0 four times, so the Dataset of
  three rows has four rows afterwards, and the log reports \<open>-1\<close> rows filtered out.
\<close>

theorem filter_adds_rows:
  "df example_processor = Some (Frame example_frame) \<and>
   length (rows example_frame) = 3 \<and>
   filter_rows example_env (Some ''[0, 0, 0, 0]'') example_processor =
     (True, example_processor
        \<lparr>df := Some (Frame (example_frame
                \<lparr>rows := [(0, [Some 2, Some 7]), (0, [Some 2, Some 7]),
                          (0, [Some 2, Some 7]), (0, [Some 2, Some 7])]\<rparr>)),
         logged := [Info_ApplyingFilter ''[0, 0, 0, 0]'', Info_Filtered (- 1) 4]\<rparr>)"
  by code_simp

subsection \<open>Sorting\<close>

lemma nth_filter_index:
  "map (\<lambda>i. xs ! i) (filter (\<lambda>i. P (xs ! i)) [0..<length xs]) = filter P xs"
proof -
  have "filter P (map (\<lambda>i. xs ! i) [0..<length xs]) =
        map (\<lambda>i. xs ! i) (filter (\<lambda>i. P (xs ! i)) [0..<length xs])"
    by (simp add: filter_map comp_def)
  then show ?thesis by (simp add: map_nth)
qed

lemma positions_of_distinct:
  assumes "distinct cols" and "k < length cols"
  shows "positions_of cols (cols ! k) = [k]"
proof -
  have "[0..<k + (length cols - k)] = [0..<k] @ [k..<k + (length cols - k)]"
    by (rule upt_add_eq_append) simp
  then have split: "[0..<length cols] = [0..<k] @ [k] @ [Suc k..<length cols]"
    using assms(2) by (simp add: upt_conv_Cons)
  have "filter (\<lambda>i. cols ! i = cols ! k) [0..<k] = []"
    using assms by (auto simp: filter_empty_conv nth_eq_iff_index_eq)
  moreover have "filter (\<lambda>i. cols ! i = cols ! k) [Suc k..<length cols] = []"
    using assms by (auto simp: filter_empty_conv nth_eq_iff_index_eq)
  ultimately show ?thesis
    unfolding positions_of_def by (subst split) simp
qed

lemma nargsort_unfold:
  "nargsort srt items asc =
     (let ix0 = filter (\<lambda>i. items ! i \<noteq> None) [0..<length items];
          ix = (if asc then ix0 else rev ix0);
          s = srt (map (\<lambda>i. the (items ! i)) ix)
      in (if asc then map (\<lambda>j. ix ! j) s else rev (map (\<lambda>j. ix ! j) s))
         @ filter (\<lambda>i. items ! i = None) [0..<length items])"
  by (simp add: nargsort_def Let_def)

lemma kernel_input:
  "map (\<lambda>i. the (items ! i))
       (if asc then filter (\<lambda>i. items ! i \<noteq> None) [0..<length items]
        else rev (filter (\<lambda>i. items ! i \<noteq> None) [0..<length items])) =
   (if asc then non_nulls items else rev (non_nulls items))"
proof -
  have "map (\<lambda>i. the (items ! i)) (filter (\<lambda>i. items ! i \<noteq> None) [0..<length items]) =
        map the (map (\<lambda>i. items ! i) (filter (\<lambda>i. items ! i \<noteq> None) [0..<length items]))"
    by simp
  also have "\<dots> = non_nulls items"
    unfolding non_nulls_def by (simp only: nth_filter_index [of items "\<lambda>c. c \<noteq> None"])
  finally have up: "map (\<lambda>i. the (items ! i))
      (filter (\<lambda>i. items ! i \<noteq> None) [0..<length items]) = non_nulls items" .
  show ?thesis
    by (cases asc) (simp_all only: up rev_map [symmetric] if_True if_False)
qed

lemma argsort_ok_mset:
  assumes "argsort_ok srt ks"
  shows "mset (srt ks) = mset [0..<length ks]"
proof -
  have "mset (sort (srt ks)) = mset [0..<length ks]"
    using assms by (simp only: argsort_ok_def)
  then show ?thesis by (simp only: mset_sort)
qed

lemma argsort_ok_set:
  assumes "argsort_ok srt ks"
  shows "set (srt ks) = {0..<length ks}"
  using argsort_ok_mset [OF assms] by (metis mset_eq_setD set_upt)

lemma nargsort_mset:
  fixes items :: "'v::linorder cell list"
  assumes ok: "argsort_ok srt (if asc then non_nulls items else rev (non_nulls items))"
  shows "mset (nargsort srt items asc) = mset [0..<length items]"
proof -
  define ix0 where "ix0 = filter (\<lambda>i. items ! i \<noteq> None) [0..<length items]"
  define ix where "ix = (if asc then ix0 else rev ix0)"
  define vals where "vals = map (\<lambda>i. the (items ! i)) ix"
  have vals: "vals = (if asc then non_nulls items else rev (non_nulls items))"
    unfolding vals_def ix_def ix0_def by (rule kernel_input)
  have len: "length vals = length ix"
    by (simp add: vals_def)
  have "mset (srt vals) = mset [0..<length ix]"
    using argsort_ok_mset [of srt vals] ok by (simp only: vals [symmetric] len)
  then have "mset (map (\<lambda>j. ix ! j) (srt vals)) = mset (map (\<lambda>j. ix ! j) [0..<length ix])"
    by (simp only: mset_map)
  also have "\<dots> = mset ix0"
    by (simp add: map_nth ix_def)
  finally have perm: "mset (map (\<lambda>j. ix ! j) (srt vals)) = mset ix0" .
  have part: "mset ix0 + mset (filter (\<lambda>i. items ! i = None) [0..<length items]) =
              mset [0..<length items]"
    unfolding ix0_def
    using multiset_partition [of "mset [0..<length items]" "\<lambda>i. items ! i \<noteq> None"]
    by (simp del: not_None_eq)
  have "nargsort srt items asc =
          (if asc then map (\<lambda>j. ix ! j) (srt vals) else rev (map (\<lambda>j. ix ! j) (srt vals)))
          @ filter (\<lambda>i. items ! i = None) [0..<length items]"
    by (simp only: nargsort_unfold Let_def ix_def ix0_def vals_def)
  then have "mset (nargsort srt items asc) =
          mset ix0 + mset (filter (\<lambda>i. items ! i = None) [0..<length items])"
    using perm by (cases asc) simp_all
  with part show ?thesis by simp
qed

lemma nargsort_keys:
  fixes items :: "'v::linorder cell list"
  assumes ok: "argsort_ok srt (if asc then non_nulls items else rev (non_nulls items))"
  shows "\<exists>vs m. map (\<lambda>i. items ! i) (nargsort srt items asc) = map Some vs @ replicate m None \<and>
           (if asc then sorted vs else sorted (rev vs))"
proof -
  define ix0 where "ix0 = filter (\<lambda>i. items ! i \<noteq> None) [0..<length items]"
  define ix where "ix = (if asc then ix0 else rev ix0)"
  define vals where "vals = map (\<lambda>i. the (items ! i)) ix"
  define nan where "nan = filter (\<lambda>i. items ! i = None) [0..<length items]"
  have vals: "vals = (if asc then non_nulls items else rev (non_nulls items))"
    unfolding vals_def ix_def ix0_def by (rule kernel_input)
  have len: "length vals = length ix"
    by (simp add: vals_def)
  have s_set: "set (srt vals) = {0..<length ix}"
    using argsort_ok_set [of srt vals] ok by (simp only: vals [symmetric] len)
  have s_sorted: "sorted (map (\<lambda>j. vals ! j) (srt vals))"
    using ok by (simp only: vals [symmetric] argsort_ok_def)
  have cell: "items ! (ix ! j) = Some (vals ! j)" if "j \<in> set (srt vals)" for j
  proof -
    from that s_set have j: "j < length ix" by simp
    then have "ix ! j \<in> set ix0"
      by (metis ix_def nth_mem set_rev)
    then have "items ! (ix ! j) \<noteq> None"
      by (simp add: ix0_def del: not_None_eq)
    moreover have "vals ! j = the (items ! (ix ! j))"
      using j by (simp add: vals_def)
    ultimately show ?thesis by (metis option.collapse)
  qed
  have head: "map (\<lambda>i. items ! i) (map (\<lambda>j. ix ! j) (srt vals)) =
              map Some (map (\<lambda>j. vals ! j) (srt vals))"
    using cell by simp
  have tail: "map (\<lambda>i. items ! i) nan = replicate (length nan) None"
    by (simp add: nan_def map_replicate_const [symmetric] cong: map_cong)
  have unf: "nargsort srt items asc =
          (if asc then map (\<lambda>j. ix ! j) (srt vals) else rev (map (\<lambda>j. ix ! j) (srt vals))) @ nan"
    by (simp only: nargsort_unfold Let_def ix_def ix0_def vals_def nan_def)
  show ?thesis
  proof (cases asc)
    case True
    have "map (\<lambda>i. items ! i) (nargsort srt items asc) =
        map Some (map (\<lambda>j. vals ! j) (srt vals)) @ replicate (length nan) None"
      by (subst unf) (simp only: True if_True map_append head tail)
    with True s_sorted show ?thesis
      by (intro exI [of _ "map (\<lambda>j. vals ! j) (srt vals)"] exI [of _ "length nan"]) simp
  next
    case False
    have "map (\<lambda>i. items ! i) (nargsort srt items asc) =
        map Some (rev (map (\<lambda>j. vals ! j) (srt vals))) @ replicate (length nan) None"
      by (subst unf) (simp only: False if_False map_append rev_map [symmetric] head tail)
    moreover have "sorted (rev (rev (map (\<lambda>j. vals ! j) (srt vals))))"
      using s_sorted by simp
    ultimately show ?thesis
      using False unfolding if_False by (intro exI [of _ "rev (map (\<lambda>j. vals ! j) (srt vals))"] exI [of _ "length nan"]) simp
  qed
qed
lemma shape_adjacent:
  fixes vs :: "'v::linorder list"
  assumes col: "col = map Some vs @ replicate m None"
  shows "sorted vs \<Longrightarrow> Suc i < length col \<Longrightarrow> col ! i = Some a \<Longrightarrow> col ! Suc i = Some b \<Longrightarrow> a \<le> b"
    and "sorted (rev vs) \<Longrightarrow> Suc i < length col \<Longrightarrow> col ! i = Some a \<Longrightarrow> col ! Suc i = Some b \<Longrightarrow> b \<le> a"
    and "i < length col \<Longrightarrow> j < length col \<Longrightarrow> col ! i = None \<Longrightarrow> col ! j \<noteq> None \<Longrightarrow> j < i"
proof -
  have some: "n < length vs \<and> col ! n = Some (vs ! n)" if "n < length col" "col ! n \<noteq> None" for n
    using that unfolding col by (cases "n < length vs") (simp_all add: nth_append)
  have none: "length vs \<le> n" if "col ! n = None" for n
    using that unfolding col by (cases "n < length vs") (simp_all add: nth_append)
  show "j < i" if "i < length col" "j < length col" "col ! i = None" "col ! j \<noteq> None"
    using some [of j] none [of i] that by simp
  show "a \<le> b" if "sorted vs" "Suc i < length col" "col ! i = Some a" "col ! Suc i = Some b"
  proof -
    from that some [of "Suc i"] have "Suc i < length vs" "b = vs ! Suc i" by simp_all
    moreover from that some [of i] have "a = vs ! i" by simp
    ultimately show ?thesis using that(1) by (simp add: sorted_nth_mono)
  qed
  show "b \<le> a" if "sorted (rev vs)" "Suc i < length col" "col ! i = Some a" "col ! Suc i = Some b"
  proof -
    from that some [of "Suc i"] have si: "Suc i < length vs" "b = vs ! Suc i" by simp_all
    moreover from that some [of i] have "a = vs ! i" by simp
    ultimately show ?thesis using that(1) sorted_rev_nth_mono [of vs i "Suc i"] by simp
  qed
qed

lemma positions_of_member:
  assumes "positions_of cols c = [k]"
  shows "k < length cols \<and> cols ! k = c"
proof -
  have "k \<in> set (positions_of cols c)"
    by (simp add: assms)
  then show ?thesis
    by (simp add: positions_of_def)
qed

lemma sort_values_unique:
  assumes "positions_of (columns d) c = [k]"
  shows "sort_values srt c asc d =
           Inr (d\<lparr>rows := map (\<lambda>i. rows d ! i) (nargsort srt (column_at k d) asc)\<rparr>)"
  by (simp add: sort_values_def assms column_at_def)

lemma column_at_take:
  assumes "set ixs \<subseteq> {0..<length (rows d)}"
  shows "column_at k (d\<lparr>rows := map (\<lambda>i. rows d ! i) ixs\<rparr>) = map (\<lambda>i. column_at k d ! i) ixs"
  using assms by (auto simp: column_at_def)

lemma take_rows_mset:
  assumes "mset ixs = mset [0..<length rs]"
  shows "mset (map (\<lambda>i. rs ! i) ixs) = mset rs"
proof -
  have "mset (map (\<lambda>i. rs ! i) ixs) = mset (map (\<lambda>i. rs ! i) [0..<length rs])"
    using assms by (simp only: mset_map)
  then show ?thesis by (simp add: map_nth)
qed

lemma example_argsort_ok: "argsort_ok (argsort example_env) ks"
proof -
  have "sort (sort_key (\<lambda>j. ks ! j) [0..<length ks]) = [0..<length ks]"
    by (rule properties_for_sort) simp_all
  moreover have "sorted (map (\<lambda>j. ks ! j) (sort_key (\<lambda>j. ks ! j) [0..<length ks]))"
    by (rule sorted_sort_key)
  ultimately show ?thesis
    by (simp add: argsort_ok_def example_env_def)
qed

text \<open>
  C5, as amended. Let \<open>c\<close> be a non-empty label that exactly one column of the Dataset
  carries, the column at position \<open>k\<close>, and let the sorting kernel meet its contract on
  the non-null values of that column as pandas hands them over (reversed for a
  descending sort). Then \<^verbatim>\<open>sort_data\<close> returns \<^verbatim>\<open>True\<close>, the rows of the result are
  the rows of the Dataset in another order, and in the sorted column every two
  neighbouring non-null values are in order (\<open>a \<le> b\<close> for an ascending sort, \<open>b \<le> a\<close> for
  a descending one, in the order of the values' type), while every null cell comes after
  every non-null cell, whatever the direction.
\<close>

theorem sort_data_order:
  fixes E :: "'v::linorder env"
  assumes "df p = Some (Frame d)" and "c \<noteq> []" and "positions_of (columns d) c = [k]"
    and "argsort_ok (argsort E)
           (if ascending then non_nulls (column_at k d) else rev (non_nulls (column_at k d)))"
  shows "\<exists>d'. sort_data E (Some c) ascending p =
               Inr (True, p\<lparr>logged := logged p @ [Info_Sorting c ascending],
                             df := Some (Frame d')\<rparr>) \<and>
          columns d' = columns d \<and> mset (rows d') = mset (rows d) \<and>
          (\<forall>i a b. Suc i < length (rows d') \<and> column_at k d' ! i = Some a \<and>
                   column_at k d' ! Suc i = Some b \<longrightarrow>
                   (if ascending then a \<le> b else b \<le> a)) \<and>
          (\<forall>i j. i < length (rows d') \<and> j < length (rows d') \<and>
                 column_at k d' ! i = None \<and> column_at k d' ! j \<noteq> None \<longrightarrow> j < i)"
proof -
  define ixs where "ixs = nargsort (argsort E) (column_at k d) ascending"
  define d' where "d' = d\<lparr>rows := map (\<lambda>i. rows d ! i) ixs\<rparr>"
  have n: "length (column_at k d) = length (rows d)"
    by (simp add: column_at_def)
  have perm: "mset ixs = mset [0..<length (rows d)]"
    unfolding ixs_def using nargsort_mset [OF assms(4)] by (simp only: n)
  then have range: "set ixs \<subseteq> {0..<length (rows d)}"
    by (metis mset_eq_setD set_upt subset_refl)
  have mem: "c \<in> set (columns d)"
    using positions_of_member [OF assms(3)] by auto
  have run: "sort_data E (Some c) ascending p =
               Inr (True, p\<lparr>logged := logged p @ [Info_Sorting c ascending],
                             df := Some (Frame d')\<rparr>)"
    using assms(1,2) mem sort_values_unique [OF assms(3), of "argsort E" ascending]
    by (simp add: sort_data_def logger_def Let_def d'_def ixs_def)
  have cols: "columns d' = columns d"
    by (simp add: d'_def)
  have rows: "mset (rows d') = mset (rows d)"
    using take_rows_mset [OF perm] by (simp add: d'_def)
  have col: "column_at k d' = map (\<lambda>i. column_at k d ! i) ixs"
    unfolding d'_def by (rule column_at_take [OF range])
  from nargsort_keys [OF assms(4)] obtain vs m where
    shape: "column_at k d' = map Some vs @ replicate m None"
    and ord: "if ascending then sorted vs else sorted (rev vs)"
    unfolding col ixs_def by blast
  have len: "length (column_at k d') = length (rows d')"
    by (simp add: column_at_def)
  have adj: "if ascending then a \<le> b else b \<le> a"
    if "Suc i < length (rows d')" "column_at k d' ! i = Some a" "column_at k d' ! Suc i = Some b"
    for i a b
    using shape_adjacent(1,2) [OF shape, of i a b] ord that
    by (cases ascending) (simp_all only: len if_True if_False)
  have last: "j < i"
    if "i < length (rows d')" "j < length (rows d')"
       "column_at k d' ! i = None" "column_at k d' ! j \<noteq> None" for i j
    using shape_adjacent(3) [OF shape, of i j] that len by simp
  from run cols rows adj last show ?thesis
    by (intro exI [of _ d']) blast
qed

lemma sort_processor_df: "df sort_processor = Some (Frame sort_frame)"
  by (simp add: sort_processor_def)

theorem sort_data_order_witness:
  "sort_data example_env (Some ''a'') True sort_processor =
     Inr (True, sort_processor
            \<lparr>logged := [Info_Sorting ''a'' True],
             df := Some (Frame (sort_frame
                    \<lparr>rows := [(2, [Some 1, Some 9]), (3, [Some 2, None]),
                              (0, [Some 3, Some 7]), (1, [None, Some 8])]\<rparr>))\<rparr>) \<and>
   sort_data example_env (Some ''a'') False sort_processor =
     Inr (True, sort_processor
            \<lparr>logged := [Info_Sorting ''a'' False],
             df := Some (Frame (sort_frame
                    \<lparr>rows := [(0, [Some 3, Some 7]), (3, [Some 2, None]),
                              (2, [Some 1, Some 9]), (1, [None, Some 8])]\<rparr>))\<rparr>) \<and>
   (\<exists>d'. sort_data example_env (Some ''a'') True sort_processor =
          Inr (True, sort_processor
                 \<lparr>logged := logged sort_processor @ [Info_Sorting ''a'' True],
                  df := Some (Frame d')\<rparr>) \<and>
        columns d' = columns sort_frame \<and>
        mset (rows d') = mset (rows sort_frame) \<and>
        (\<forall>i a b. Suc i < length (rows d') \<and> column_at 0 d' ! i = Some a \<and>
                 column_at 0 d' ! Suc i = Some b \<longrightarrow> (if True then a \<le> b else b \<le> a)) \<and>
        (\<forall>i j. i < length (rows d') \<and> j < length (rows d') \<and>
               column_at 0 d' ! i = None \<and> column_at 0 d' ! j \<noteq> None \<longrightarrow> j < i)) \<and>
   (\<exists>d'. sort_data example_env (Some ''a'') False sort_processor =
          Inr (True, sort_processor
                 \<lparr>logged := logged sort_processor @ [Info_Sorting ''a'' False],
                  df := Some (Frame d')\<rparr>) \<and>
        columns d' = columns sort_frame \<and>
        mset (rows d') = mset (rows sort_frame) \<and>
        (\<forall>i a b. Suc i < length (rows d') \<and> column_at 0 d' ! i = Some a \<and>
                 column_at 0 d' ! Suc i = Some b \<longrightarrow> (if False then a \<le> b else b \<le> a)) \<and>
        (\<forall>i j. i < length (rows d') \<and> j < length (rows d') \<and>
               column_at 0 d' ! i = None \<and> column_at 0 d' ! j \<noteq> None \<longrightarrow> j < i))"
proof -
  have run_up: "sort_data example_env (Some ''a'') True sort_processor =
     Inr (True, sort_processor
            \<lparr>logged := [Info_Sorting ''a'' True],
             df := Some (Frame (sort_frame
                    \<lparr>rows := [(2, [Some 1, Some 9]), (3, [Some 2, None]),
                              (0, [Some 3, Some 7]), (1, [None, Some 8])]\<rparr>))\<rparr>)"
    by code_simp
  have run_down: "sort_data example_env (Some ''a'') False sort_processor =
     Inr (True, sort_processor
            \<lparr>logged := [Info_Sorting ''a'' False],
             df := Some (Frame (sort_frame
                    \<lparr>rows := [(0, [Some 3, Some 7]), (3, [Some 2, None]),
                              (2, [Some 1, Some 9]), (1, [None, Some 8])]\<rparr>))\<rparr>)"
    by code_simp
  have h2: "''a'' \<noteq> []"
    by simp
  have h3: "positions_of (columns sort_frame) ''a'' = [0]"
    by code_simp
  have up: "argsort_ok (argsort example_env)
              (if True then non_nulls (column_at 0 sort_frame)
               else rev (non_nulls (column_at 0 sort_frame)))"
    by (rule example_argsort_ok)
  have down: "argsort_ok (argsort example_env)
              (if False then non_nulls (column_at 0 sort_frame)
               else rev (non_nulls (column_at 0 sort_frame)))"
    by (rule example_argsort_ok)
  note t_up = sort_data_order [OF sort_processor_df h2 h3 up]
  note t_down = sort_data_order [OF sort_processor_df h2 h3 down]
  from run_up run_down t_up t_down show ?thesis
    by (intro conjI)
qed

text \<open>
  C5 as stated speaks of every Dataset and every existing sort column. Selecting
  \<^verbatim>\<open>a,a\<close> leaves a Dataset with two columns named \<^verbatim>\<open>a\<close>; the column \<^verbatim>\<open>a\<close> exists,
  the check of \<^verbatim>\<open>sort_data\<close> passes, and \<^verbatim>\<open>sort_values\<close> raises \<^verbatim>\<open>ValueError\<close>,
  which nothing catches: the run with \<^verbatim>\<open>--columns a,a --sort a\<close> ends with status 1
  and writes no file.
\<close>

theorem sort_repeated_label:
  "select_columns (Some ''a,a'') example_processor =
     Inr (Some True, example_processor
            \<lparr>logged := [Info_Selecting [''a'', ''a'']], df := Some (Frame repeated_frame)\<rparr>) \<and>
   sort_data example_env (Some ''a'') True
       (example_processor\<lparr>logged := [Info_Selecting [''a'', ''a'']],
                           df := Some (Frame repeated_frame)\<rparr>) =
     Inl (ValueError, example_processor
            \<lparr>logged := [Info_Selecting [''a'', ''a''], Info_Sorting ''a'' True],
             df := Some (Frame repeated_frame)\<rparr>) \<and>
   main example_env (example_args\<lparr>arg_columns := Some ''a,a'', arg_sort := Some ''a''\<rparr>) =
     (1, \<lparr>input_file = ''in.csv'', df = Some (Frame repeated_frame), original_rows = 3,
          logged = [Info_Loading ''in.csv'', Info_Loaded 3 2,
                    Info_Selecting [''a'', ''a''], Info_Sorting ''a'' True],
          written = []\<rparr>)"
  by code_simp

text \<open>
  The empty string is no sort column for \<^verbatim>\<open>sort_data\<close>: it is false for \<^verbatim>\<open>if not
  sort_column\<close>, and the method returns \<^verbatim>\<open>True\<close> without sorting.
\<close>

lemma sort_data_empty_name: "sort_data E (Some []) ascending p = Inr (True, p)"
  by (simp add: sort_data_def)

subsection \<open>Removing duplicates\<close>

lemma duplicated_length: "length (duplicated seen ks) = length ks"
  by (induction ks arbitrary: seen) simp_all

lemma duplicated_nth:
  "i < length ks \<Longrightarrow> duplicated seen ks ! i \<longleftrightarrow> ks ! i \<in> set seen \<union> set (take i ks)"
proof (induction ks arbitrary: seen i)
  case Nil
  then show ?case by simp
next
  case (Cons k ks)
  show ?case
  proof (cases i)
    case 0
    then show ?thesis by simp
  next
    case (Suc n)
    with Cons.prems have "n < length ks" by simp
    from Cons.IH [OF this, of "k # seen"] Suc show ?thesis by auto
  qed
qed

lemma in_take_conv:
  assumes "i < length ks"
  shows "ks ! i \<in> set (take i ks) \<longleftrightarrow> (\<exists>j<i. ks ! j = ks ! i)"
proof
  assume "ks ! i \<in> set (take i ks)"
  then obtain j where "j < length (take i ks)" "take i ks ! j = ks ! i"
    by (auto simp: in_set_conv_nth)
  with assms show "\<exists>j<i. ks ! j = ks ! i" by auto
next
  assume "\<exists>j<i. ks ! j = ks ! i"
  then obtain j where j: "j < i" "ks ! j = ks ! i" by blast
  with assms have "take i ks ! j = ks ! i" "j < length (take i ks)" by simp_all
  then show "ks ! i \<in> set (take i ks)" by (metis nth_mem)
qed

lemma zip_as_map:
  assumes "length ms = length xs"
  shows "zip xs ms = map (\<lambda>i. (xs ! i, ms ! i)) [0..<length xs]"
  using assms by (intro nth_equalityI) simp_all

lemma unmarked_rows:
  assumes "length ms = length xs"
  shows "map fst (filter (\<lambda>(r, m). \<not> m) (zip xs ms)) =
         map (\<lambda>i. xs ! i) (filter (\<lambda>i. \<not> ms ! i) [0..<length xs])"
  by (simp add: zip_as_map [OF assms] filter_map comp_def)

lemma drop_duplicates_rows:
  assumes "labels = (case subset_arg of None \<Rightarrow> columns d | Some s \<Rightarrow> s)"
    and "labels \<noteq> []" and "set labels \<subseteq> set (columns d)"
  shows "\<exists>d'. drop_duplicates subset_arg d = Inr d' \<and> columns d' = columns d \<and>
           rows d' = map (\<lambda>i. rows d ! i)
             (filter (\<lambda>i. \<forall>j<i. row_key (columns d) labels (rows d ! j)
                                   \<noteq> row_key (columns d) labels (rows d ! i))
                [0..<length (rows d)])"
proof (cases "rows d = []")
  case True
  then show ?thesis by (simp add: drop_duplicates_def)
next
  case False
  define ks where "ks = map (row_key (columns d) labels) (rows d)"
  have cols: "columns d \<noteq> []"
    using assms(2,3) by auto
  have len: "length (duplicated [] ks) = length (rows d)"
    by (simp add: duplicated_length ks_def)
  have pred: "(\<not> duplicated [] ks ! i) \<longleftrightarrow>
        (\<forall>j<i. row_key (columns d) labels (rows d ! j) \<noteq> row_key (columns d) labels (rows d ! i))"
    if "i \<in> set [0..<length (rows d)]" for i
  proof -
    from that have i: "i < length ks" by (simp add: ks_def)
    have "duplicated [] ks ! i \<longleftrightarrow> (\<exists>j<i. ks ! j = ks ! i)"
      using duplicated_nth [OF i, of "[]"] in_take_conv [OF i] by simp
    also have "\<dots> \<longleftrightarrow> (\<exists>j<i. row_key (columns d) labels (rows d ! j)
                              = row_key (columns d) labels (rows d ! i))"
      using i by (auto simp: ks_def)
    finally show ?thesis by blast
  qed
  have "drop_duplicates subset_arg d =
          Inr (d\<lparr>rows := map fst (filter (\<lambda>(r, m). \<not> m) (zip (rows d) (duplicated [] ks)))\<rparr>)"
    using False cols assms by (simp add: drop_duplicates_def Let_def ks_def)
  moreover have "filter (\<lambda>i. \<not> duplicated [] ks ! i) [0..<length (rows d)] =
      filter (\<lambda>i. \<forall>j<i. row_key (columns d) labels (rows d ! j)
                                   \<noteq> row_key (columns d) labels (rows d ! i))
                [0..<length (rows d)]"
    by (rule filter_cong [OF refl]) (rule pred)
  ultimately show ?thesis
    by (simp only: unmarked_rows [OF len]) simp
qed

lemma remove_duplicates_first:
  assumes "df p = Some (Frame d)"
    and "labels = (case subset_arg of None \<Rightarrow> columns d | Some s \<Rightarrow> s)"
    and "labels \<noteq> []" and "set labels \<subseteq> set (columns d)"
  shows "\<exists>p' d'. remove_duplicates subset_arg p = Inr (True, p') \<and> df p' = Some (Frame d') \<and>
           columns d' = columns d \<and>
           rows d' = map (\<lambda>i. rows d ! i)
             (filter (\<lambda>i. \<forall>j<i. row_key (columns d) labels (rows d ! j)
                                   \<noteq> row_key (columns d) labels (rows d ! i))
                [0..<length (rows d)])"
proof -
  from drop_duplicates_rows [OF assms(2-4)] obtain d' where
    "drop_duplicates subset_arg d = Inr d'" "columns d' = columns d"
    "rows d' = map (\<lambda>i. rows d ! i)
             (filter (\<lambda>i. \<forall>j<i. row_key (columns d) labels (rows d ! j)
                                   \<noteq> row_key (columns d) labels (rows d ! i))
                [0..<length (rows d)])"
    by blast
  with assms(1) show ?thesis
    by (simp add: remove_duplicates_def Let_def logger_def)
qed

lemma remove_duplicates_empty_frame:
  assumes "df p = Some (Frame d)" and "rows d = [] \<or> columns d = []"
  shows "remove_duplicates subset_arg p = Inr (True, p)"
proof -
  from assms(2) have "drop_duplicates subset_arg d = Inr d"
    by (simp add: drop_duplicates_def)
  moreover from assms(1) have "p\<lparr>df := Some (Frame d)\<rparr> = p"
    by (cases p) simp
  ultimately show ?thesis
    using assms(1) by (simp add: remove_duplicates_def Let_def)
qed

lemma remove_duplicates_no_label:
  assumes "df p = Some (Frame d)" and "rows d \<noteq> []" and "columns d \<noteq> []"
    and "(case subset_arg of None \<Rightarrow> columns d | Some s \<Rightarrow> s) = []"
  shows "remove_duplicates subset_arg p = Inl (ValueError, p)"
proof -
  from assms(2-4) have "drop_duplicates subset_arg d = Inl ValueError"
    by (simp add: drop_duplicates_def Let_def)
  with assms(1) show ?thesis
    by (simp add: remove_duplicates_def Let_def)
qed

text \<open>
  C7, as amended. The labels compared are all the columns when no subset is given,
  and the given ones otherwise. When there is at least one label and every label is a
  column of the Dataset, \<^verbatim>\<open>remove_duplicates\<close> returns \<^verbatim>\<open>True\<close> and raises nothing, and
  the rows it keeps are, in their original order, exactly the rows that agree on the
  compared columns with no earlier row: a later duplicate goes, its first occurrence
  stays. On a Dataset without rows or without columns the call returns \<^verbatim>\<open>True\<close> and
  leaves everything as it is, whatever the subset. On a Dataset with at least one row
  and one column, an empty list of labels makes the call raise \<^verbatim>\<open>ValueError\<close>.
\<close>

theorem remove_duplicates_keeps_first:
  assumes "df p = Some (Frame d)"
    and "labels = (case subset_arg of None \<Rightarrow> columns d | Some s \<Rightarrow> s)"
  shows "(labels \<noteq> [] \<and> set labels \<subseteq> set (columns d) \<longrightarrow>
            (\<exists>p' d'. remove_duplicates subset_arg p = Inr (True, p') \<and>
               df p' = Some (Frame d') \<and> columns d' = columns d \<and>
               rows d' = map (\<lambda>i. rows d ! i)
                 (filter (\<lambda>i. \<forall>j<i. row_key (columns d) labels (rows d ! j)
                                       \<noteq> row_key (columns d) labels (rows d ! i))
                    [0..<length (rows d)]))) \<and>
         (rows d = [] \<or> columns d = [] \<longrightarrow> remove_duplicates subset_arg p = Inr (True, p)) \<and>
         (rows d \<noteq> [] \<and> columns d \<noteq> [] \<and> labels = [] \<longrightarrow>
            remove_duplicates subset_arg p = Inl (ValueError, p))"
proof (intro conjI impI)
  assume "labels \<noteq> [] \<and> set labels \<subseteq> set (columns d)"
  then have "labels \<noteq> []" and "set labels \<subseteq> set (columns d)"
    by blast+
  from remove_duplicates_first [OF assms this]
  show "\<exists>p' d'. remove_duplicates subset_arg p = Inr (True, p') \<and>
               df p' = Some (Frame d') \<and> columns d' = columns d \<and>
               rows d' = map (\<lambda>i. rows d ! i)
                 (filter (\<lambda>i. \<forall>j<i. row_key (columns d) labels (rows d ! j)
                                       \<noteq> row_key (columns d) labels (rows d ! i))
                    [0..<length (rows d)])" .
next
  assume "rows d = [] \<or> columns d = []"
  from remove_duplicates_empty_frame [OF assms(1) this]
  show "remove_duplicates subset_arg p = Inr (True, p)" .
next
  assume a: "rows d \<noteq> [] \<and> columns d \<noteq> [] \<and> labels = []"
  then have "rows d \<noteq> []" and "columns d \<noteq> []"
    and "(case subset_arg of None \<Rightarrow> columns d | Some s \<Rightarrow> s) = []"
    using assms(2) by simp_all
  from remove_duplicates_no_label [OF assms(1) this]
  show "remove_duplicates subset_arg p = Inl (ValueError, p)" .
qed

theorem remove_duplicates_keeps_first_witness:
  "(\<exists>p' d'. remove_duplicates None example_processor = Inr (True, p') \<and>
       df p' = Some (Frame d') \<and> columns d' = [''a'', ''b''] \<and>
       rows d' = [(0, [Some 2, Some 7]), (1, [Some 1, None])]) \<and>
   (\<exists>p' d'. remove_duplicates (Some [''a'']) example_processor = Inr (True, p') \<and>
       df p' = Some (Frame d') \<and> columns d' = [''a'', ''b''] \<and>
       rows d' = [(0, [Some 2, Some 7]), (1, [Some 1, None])]) \<and>
   remove_duplicates (Some [])
       (example_processor\<lparr>df := Some (Frame (example_frame\<lparr>rows := []\<rparr>))\<rparr>) =
     Inr (True, example_processor\<lparr>df := Some (Frame (example_frame\<lparr>rows := []\<rparr>))\<rparr>) \<and>
   remove_duplicates (Some []) example_processor = Inl (ValueError, example_processor)"
proof -
  let ?q = "example_processor\<lparr>df := Some (Frame (example_frame\<lparr>rows := []\<rparr>))\<rparr>"
  have cols: "columns example_frame = [''a'', ''b'']"
    by (simp add: example_frame_def)
  have rws: "rows example_frame \<noteq> []"
    by (simp add: example_frame_def)
  have run1: "remove_duplicates None example_processor =
      Inr (True, example_processor
             \<lparr>df := Some (Frame (example_frame
                     \<lparr>rows := [(0, [Some 2, Some 7]), (1, [Some 1, None])]\<rparr>)),
              logged := [Info_RemovedDuplicates 1]\<rparr>)"
    by code_simp
  have run2: "remove_duplicates (Some [''a'']) example_processor =
      Inr (True, example_processor
             \<lparr>df := Some (Frame (example_frame
                     \<lparr>rows := [(0, [Some 2, Some 7]), (1, [Some 1, None])]\<rparr>)),
              logged := [Info_RemovedDuplicates 1]\<rparr>)"
    by code_simp
  have l1: "[''a'', ''b''] = (case None of None \<Rightarrow> columns example_frame | Some s \<Rightarrow> s)"
    by (simp add: cols)
  have l2: "[''a''] = (case Some [''a''] of None \<Rightarrow> columns example_frame | Some s \<Rightarrow> s)"
    by simp
  have l3: "[] = (case Some [] of None \<Rightarrow> columns (example_frame\<lparr>rows := []\<rparr>) | Some s \<Rightarrow> s)"
    by simp
  have l4: "[] = (case Some [] of None \<Rightarrow> columns example_frame | Some s \<Rightarrow> s)"
    by simp
  have q: "df ?q = Some (Frame (example_frame\<lparr>rows := []\<rparr>))"
    by simp
  from remove_duplicates_keeps_first [OF example_processor_df l1]
  obtain p1 d1 where a1: "remove_duplicates None example_processor = Inr (True, p1)"
    and b1: "df p1 = Some (Frame d1)" and c1: "columns d1 = columns example_frame"
    by (auto simp: cols)
  from a1 run1 b1
  have "d1 = example_frame\<lparr>rows := [(0, [Some 2, Some 7]), (1, [Some 1, None])]\<rparr>"
    by auto
  then have "rows d1 = [(0, [Some 2, Some 7]), (1, [Some 1, None])]"
    by simp
  with a1 b1 c1 cols
  have 1: "\<exists>p' d'. remove_duplicates None example_processor = Inr (True, p') \<and>
       df p' = Some (Frame d') \<and> columns d' = [''a'', ''b''] \<and>
       rows d' = [(0, [Some 2, Some 7]), (1, [Some 1, None])]"
    by (intro exI [of _ p1] exI [of _ d1]) simp
  from remove_duplicates_keeps_first [OF example_processor_df l2]
  obtain p2 d2 where a2: "remove_duplicates (Some [''a'']) example_processor = Inr (True, p2)"
    and b2: "df p2 = Some (Frame d2)" and c2: "columns d2 = columns example_frame"
    by (auto simp: cols)
  from a2 run2 b2
  have "d2 = example_frame\<lparr>rows := [(0, [Some 2, Some 7]), (1, [Some 1, None])]\<rparr>"
    by auto
  then have "rows d2 = [(0, [Some 2, Some 7]), (1, [Some 1, None])]"
    by simp
  with a2 b2 c2 cols
  have 2: "\<exists>p' d'. remove_duplicates (Some [''a'']) example_processor = Inr (True, p') \<and>
       df p' = Some (Frame d') \<and> columns d' = [''a'', ''b''] \<and>
       rows d' = [(0, [Some 2, Some 7]), (1, [Some 1, None])]"
    by (intro exI [of _ p2] exI [of _ d2]) simp
  from remove_duplicates_keeps_first [OF q l3]
  have 3: "remove_duplicates (Some []) ?q = Inr (True, ?q)"
    by simp
  from remove_duplicates_keeps_first [OF example_processor_df l4] cols rws
  have 4: "remove_duplicates (Some []) example_processor = Inl (ValueError, example_processor)"
    by simp
  from 1 2 3 4 show ?thesis by blast
qed

text \<open>
  C7 as stated also takes an empty subset to be valid. With the empty list of labels
  the call raises \<^verbatim>\<open>ValueError\<close> on a Dataset that has rows and columns.
\<close>

theorem remove_duplicates_empty_subset:
  "rows example_frame \<noteq> [] \<and> columns example_frame \<noteq> [] \<and>
   remove_duplicates (Some []) example_processor = Inl (ValueError, example_processor)"
  by code_simp

subsection \<open>Shape of the Dataset through the stages\<close>

lemma equal_row_count_iff:
  "equal_row_count d \<longleftrightarrow> (\<forall>r \<in> set (rows d). length (snd r) = length (columns d))"
  by (simp add: equal_row_count_def list_all_iff)

lemma equal_row_count_subset:
  assumes "equal_row_count d" and "columns d' = columns d" and "set (rows d') \<subseteq> set (rows d)"
  shows "equal_row_count d'"
  using assms by (auto simp: equal_row_count_iff)

lemma set_kept_rows: "set (map fst (filter P (zip xs ms))) \<subseteq> set xs"
  by (auto dest: set_zip_leftD)

lemma positions_of_label:
  assumes "distinct cols" and "c \<in> set cols"
  shows "map (\<lambda>i. cols ! i) (positions_of cols c) = [c]"
proof -
  from assms(2) obtain k where "k < length cols" "cols ! k = c"
    by (auto simp: in_set_conv_nth)
  with positions_of_distinct [OF assms(1), of k] show ?thesis by auto
qed

lemma getitem_list_columns:
  assumes "distinct (columns d)" and "getitem_list col_list d = Inr d'"
  shows "columns d' = col_list"
proof -
  from assms(2) have sub: "set col_list \<subseteq> set (columns d)"
    by (auto simp: getitem_list_def split: if_splits)
  have "map (\<lambda>i. columns d ! i) (concat (map (positions_of (columns d)) cl)) = cl"
    if "set cl \<subseteq> set (columns d)" for cl
    using that by (induction cl) (simp_all add: positions_of_label [OF assms(1)])
  from this [OF sub] assms(2) sub show ?thesis
    by (auto simp: getitem_list_def Let_def)
qed

lemma getitem_list_shape:
  assumes "getitem_list col_list d = Inr d'"
  shows "equal_row_count d'"
  using assms by (auto simp: getitem_list_def Let_def equal_row_count_iff split: if_splits)

lemma loc_mask_shape:
  assumes "loc (Mask marks) d = Inr obj"
  shows "\<exists>d'. obj = Frame d' \<and> columns d' = columns d \<and> set (rows d') \<subseteq> set (rows d)"
proof -
  from assms have "obj = Frame (d\<lparr>rows := map fst (filter snd (zip (rows d) marks))\<rparr>)"
    by (auto simp: loc_def split: if_splits)
  then show ?thesis
    using set_kept_rows [of snd "rows d" marks] by simp
qed

lemma loc_labels_shape:
  assumes "loc (Labels ls) d = Inr obj"
  shows "\<exists>d'. obj = Frame d' \<and> columns d' = columns d \<and> set (rows d') \<subseteq> set (rows d)"
proof -
  from assms have "obj = Frame (d\<lparr>rows := concat (map (\<lambda>l. rows_labelled l d) ls)\<rparr>)"
    by (auto simp: loc_def split: if_splits)
  then show ?thesis
    by (auto simp: rows_labelled_def)
qed

lemma drop_duplicates_shape:
  assumes "drop_duplicates subset_arg d = Inr d'"
  shows "columns d' = columns d \<and> set (rows d') \<subseteq> set (rows d)"
proof -
  from assms have "d' = d \<or>
      (\<exists>ms. d' = d\<lparr>rows := map fst (filter (\<lambda>(r, m). \<not> m) (zip (rows d) ms))\<rparr>)"
    by (auto simp: drop_duplicates_def Let_def split: if_splits)
  then show ?thesis
  proof
    assume "d' = d"
    then show ?thesis by simp
  next
    assume "\<exists>ms. d' = d\<lparr>rows := map fst (filter (\<lambda>(r, m). \<not> m) (zip (rows d) ms))\<rparr>"
    then obtain ms where
      "d' = d\<lparr>rows := map fst (filter (\<lambda>(r, m). \<not> m) (zip (rows d) ms))\<rparr>" ..
    then show ?thesis
      using set_kept_rows [of "\<lambda>(r, m). \<not> m" "rows d" ms] by simp
  qed
qed

lemma fillna_shape:
  assumes "equal_row_count d"
  shows "equal_row_count (fillna v d)"
  using assms by (auto simp: equal_row_count_iff fillna_def)

lemma dropna_shape:
  assumes "equal_row_count d"
  shows "equal_row_count (dropna d)"
  using assms by (auto simp: equal_row_count_iff dropna_def)

lemma sort_values_shape:
  fixes srt :: "'v::linorder list \<Rightarrow> nat list"
  assumes "sort_values srt c asc d = Inr d'" and ok: "\<forall>ks. argsort_ok srt ks"
  shows "columns d' = columns d \<and> set (rows d') \<subseteq> set (rows d)"
proof -
  from assms(1) obtain k where
    d': "d' = d\<lparr>rows := map (\<lambda>i. rows d ! i) (nargsort srt (column_at k d) asc)\<rparr>"
    by (auto simp: sort_values_def column_at_def Let_def split: list.splits)
  have "mset (nargsort srt (column_at k d) asc) = mset [0..<length (column_at k d)]"
    using ok by (intro nargsort_mset) simp
  then have "set (nargsort srt (column_at k d) asc) = {0..<length (rows d)}"
    by (metis mset_eq_setD set_upt column_at_def length_map)
  then show ?thesis
    unfolding d' by auto
qed

lemma load_csv_shape:
  assumes "load_csv E encoding delimiter p0 = (True, pl)"
  shows "\<exists>d. df pl = Some (Frame d) \<and> equal_row_count d \<and> distinct (columns d)"
proof (cases "read_csv E (input_file p0) encoding delimiter")
  case (Inl e)
  with assms show ?thesis
    by (simp add: load_csv_def Let_def)
next
  case (Inr f)
  have "equal_row_count (frame_of f) \<and> distinct (columns (frame_of f))"
    using frame_of [of f] by simp
  moreover from assms Inr have "df pl = Some (Frame (frame_of f))"
    by (auto simp: load_csv_def Let_def logger_def)
  ultimately show ?thesis by blast
qed

lemma select_columns_shape:
  assumes "df p = Some (Frame d)" and "equal_row_count d"
    and "select_columns cols p = Inr (r, p')"
  shows "\<exists>d'. df p' = Some (Frame d') \<and> equal_row_count d' \<and>
           (r \<noteq> Some True \<longrightarrow> d' = d) \<and>
           (r = Some True \<and> distinct (columns d) \<longrightarrow>
              columns d' = map strip (split_on CHR '','' (the cols)))"
  using assms
  by (auto simp: select_columns_def logger_def Let_def getitem_list_shape getitem_list_columns
           split: option.splits if_splits sum.splits)

lemma filter_rows_unchanged:
  assumes "df p = Some (Frame d)" and "filter_rows E fe p = (r, p')"
    and "\<not> truthy fe \<or> \<not> r"
  shows "df p' = Some (Frame d)"
  using assms
  by (auto simp: filter_rows_def logger_def Let_def split: if_splits sum.splits)

lemma filter_rows_shape:
  assumes "df p = Some (Frame d)" and "equal_row_count d"
    and "filter_rows E fe p = (r, p')" and "truthy fe"
    and "(\<exists>marks. eval_query E (the fe) d = Inr (Mask marks)) \<or>
         (\<exists>ls. eval_query E (the fe) d = Inr (Labels ls))"
  shows "\<exists>d'. df p' = Some (Frame d') \<and> equal_row_count d' \<and> columns d' = columns d"
proof (cases "query E (the fe) d")
  case (Inl e)
  with assms(1,3,4) have "df p' = Some (Frame d)"
    by (auto simp: filter_rows_def logger_def Let_def)
  with assms(2) show ?thesis by simp
next
  case (Inr obj)
  with assms(1,3,4) have p': "df p' = Some obj"
    by (auto simp: filter_rows_def logger_def Let_def)
  from assms(5) Inr have "\<exists>d'. obj = Frame d' \<and> columns d' = columns d \<and>
                               set (rows d') \<subseteq> set (rows d)"
    by (auto simp: query_def dest: loc_mask_shape loc_labels_shape)
  then obtain d' where "obj = Frame d'" "columns d' = columns d"
    "set (rows d') \<subseteq> set (rows d)"
    by blast
  with p' equal_row_count_subset [OF assms(2), of d'] show ?thesis
    by simp
qed

lemma remove_duplicates_shape:
  assumes "df p = Some (Frame d)" and "equal_row_count d"
    and "remove_duplicates subset_arg p = Inr (r, p')"
  shows "\<exists>d'. df p' = Some (Frame d') \<and> equal_row_count d' \<and> columns d' = columns d"
proof (cases "drop_duplicates subset_arg d")
  case (Inl e)
  with assms(1,3) show ?thesis
    by (simp add: remove_duplicates_def Let_def)
next
  case (Inr d')
  with assms(1,3) have "df p' = Some (Frame d')"
    by (auto simp: remove_duplicates_def Let_def logger_def split: if_splits)
  with drop_duplicates_shape [OF Inr] equal_row_count_subset [OF assms(2), of d']
  show ?thesis by simp
qed

lemma fill_missing_shape:
  assumes "df p = Some (Frame d)" and "equal_row_count d"
    and "fill_missing method val p = Inr (r, p')"
  shows "\<exists>d'. df p' = Some (Frame d') \<and> equal_row_count d' \<and> columns d' = columns d"
  using assms
  by (auto simp: fill_missing_def logger_def Let_def fillna_shape dropna_shape
                 fillna_columns dropna_columns
           split: if_splits)

lemma sort_data_shape:
  fixes E :: "'v::linorder env"
  assumes "df p = Some (Frame d)" and "equal_row_count d"
    and "\<forall>ks. argsort_ok (argsort E) ks"
    and "sort_data E sc asc p = Inr (r, p')"
  shows "\<exists>d'. df p' = Some (Frame d') \<and> equal_row_count d' \<and> columns d' = columns d"
proof -
  have keep: "equal_row_count d'" "columns d' = columns d"
    if "sort_values (argsort E) c asc d = Inr d'" for c d'
    using sort_values_shape [OF that assms(3)] assms(2)
    by (auto intro: equal_row_count_subset)
  from assms(1,2,4) show ?thesis
    by (auto simp: sort_data_def logger_def Let_def keep split: if_splits sum.splits)
qed

lemma example_shape: "equal_row_count example_frame"
  by code_simp

text \<open>
  C9, as amended. The Dataset that a successful load leaves is a frame in which all
  columns have the same number of cells and the column names are unique. Now take any
  Dataset in which all columns have the same number of cells. A column selection that
  returns leaves a Dataset of that shape: the same Dataset when it did not succeed, and
  on a Dataset with unique names, when it succeeded, the requested names, trimmed, in
  the order and with the repetitions of the request (so the names of the result are
  unique exactly when the request repeats none). A filter that is not applied or fails
  leaves the Dataset as it is; a filter whose expression evaluates to a boolean mask
  or to a list of row labels leaves a Dataset of that shape with the same column names.
  Deduplication, missing-value handling and sort (when the sorting kernel meets its
  contract) leave a Dataset of that shape with the same column names, so names that
  were unique stay unique.
\<close>

theorem stages_keep_shape:
  fixes E :: "'v::{zero,linorder} env"
  shows "(load_csv E encoding delimiter p0 = (True, pl) \<longrightarrow>
            (\<exists>d0. df pl = Some (Frame d0) \<and> equal_row_count d0 \<and> distinct (columns d0))) \<and>
         (df p = Some (Frame d) \<and> equal_row_count d \<longrightarrow>
            (select_columns cols p = Inr (r1, p1) \<longrightarrow>
               (\<exists>d'. df p1 = Some (Frame d') \<and> equal_row_count d' \<and>
                     (r1 \<noteq> Some True \<longrightarrow> d' = d) \<and>
                     (r1 = Some True \<and> distinct (columns d) \<longrightarrow>
                        columns d' = map strip (split_on CHR '','' (the cols))))) \<and>
            (filter_rows E fe p = (r2, p2) \<and> (\<not> truthy fe \<or> \<not> r2) \<longrightarrow>
               df p2 = Some (Frame d)) \<and>
            (filter_rows E fe p = (r2, p2) \<and> truthy fe \<and>
             ((\<exists>marks. eval_query E (the fe) d = Inr (Mask marks)) \<or>
              (\<exists>ls. eval_query E (the fe) d = Inr (Labels ls))) \<longrightarrow>
               (\<exists>d'. df p2 = Some (Frame d') \<and> equal_row_count d' \<and> columns d' = columns d)) \<and>
            (remove_duplicates subset_arg p = Inr (r3, p3) \<longrightarrow>
               (\<exists>d'. df p3 = Some (Frame d') \<and> equal_row_count d' \<and> columns d' = columns d)) \<and>
            (fill_missing method val p = Inr (r4, p4) \<longrightarrow>
               (\<exists>d'. df p4 = Some (Frame d') \<and> equal_row_count d' \<and> columns d' = columns d)) \<and>
            ((\<forall>ks. argsort_ok (argsort E) ks) \<and> sort_data E sc asc p = Inr (r5, p5) \<longrightarrow>
               (\<exists>d'. df p5 = Some (Frame d') \<and> equal_row_count d' \<and> columns d' = columns d)))"
proof (intro conjI impI)
  assume "load_csv E encoding delimiter p0 = (True, pl)"
  then show "\<exists>d0. df pl = Some (Frame d0) \<and> equal_row_count d0 \<and> distinct (columns d0)"
    by (rule load_csv_shape)
next
  assume a: "df p = Some (Frame d) \<and> equal_row_count d"
    and b: "select_columns cols p = Inr (r1, p1)"
  from a have "df p = Some (Frame d)" and "equal_row_count d" by blast+
  from select_columns_shape [OF this b]
  show "\<exists>d'. df p1 = Some (Frame d') \<and> equal_row_count d' \<and>
             (r1 \<noteq> Some True \<longrightarrow> d' = d) \<and>
             (r1 = Some True \<and> distinct (columns d) \<longrightarrow>
                columns d' = map strip (split_on CHR '','' (the cols)))" .
next
  assume a: "df p = Some (Frame d) \<and> equal_row_count d"
    and b: "filter_rows E fe p = (r2, p2) \<and> (\<not> truthy fe \<or> \<not> r2)"
  from a b filter_rows_unchanged [of p d E fe r2 p2]
  show "df p2 = Some (Frame d)" by blast
next
  assume a: "df p = Some (Frame d) \<and> equal_row_count d"
    and b: "filter_rows E fe p = (r2, p2) \<and> truthy fe \<and>
             ((\<exists>marks. eval_query E (the fe) d = Inr (Mask marks)) \<or>
              (\<exists>ls. eval_query E (the fe) d = Inr (Labels ls)))"
  from a have 1: "df p = Some (Frame d)" and 2: "equal_row_count d" by blast+
  from b have 3: "filter_rows E fe p = (r2, p2)" and 4: "truthy fe"
    and 5: "(\<exists>marks. eval_query E (the fe) d = Inr (Mask marks)) \<or>
            (\<exists>ls. eval_query E (the fe) d = Inr (Labels ls))"
    by blast+
  from filter_rows_shape [OF 1 2 3 4 5]
  show "\<exists>d'. df p2 = Some (Frame d') \<and> equal_row_count d' \<and> columns d' = columns d" .
next
  assume a: "df p = Some (Frame d) \<and> equal_row_count d"
    and b: "remove_duplicates subset_arg p = Inr (r3, p3)"
  from a have "df p = Some (Frame d)" and "equal_row_count d" by blast+
  from remove_duplicates_shape [OF this b]
  show "\<exists>d'. df p3 = Some (Frame d') \<and> equal_row_count d' \<and> columns d' = columns d" .
next
  assume a: "df p = Some (Frame d) \<and> equal_row_count d"
    and b: "fill_missing method val p = Inr (r4, p4)"
  from a have "df p = Some (Frame d)" and "equal_row_count d" by blast+
  from fill_missing_shape [OF this b]
  show "\<exists>d'. df p4 = Some (Frame d') \<and> equal_row_count d' \<and> columns d' = columns d" .
next
  assume a: "df p = Some (Frame d) \<and> equal_row_count d"
    and b: "(\<forall>ks. argsort_ok (argsort E) ks) \<and> sort_data E sc asc p = Inr (r5, p5)"
  from a have 1: "df p = Some (Frame d)" and 2: "equal_row_count d" by blast+
  from b have 3: "\<forall>ks. argsort_ok (argsort E) ks" and 4: "sort_data E sc asc p = Inr (r5, p5)"
    by blast+
  from sort_data_shape [OF 1 2 3 4]
  show "\<exists>d'. df p5 = Some (Frame d') \<and> equal_row_count d' \<and> columns d' = columns d" .
qed

theorem stages_keep_shape_witness:
  "(\<exists>pl d0. load_csv example_env ''utf-8'' '','' (init ''in.csv'') = (True, pl) \<and>
       df pl = Some (Frame d0) \<and> equal_row_count d0 \<and> distinct (columns d0)) \<and>
   (\<exists>p' d'. select_columns (Some ''b, a'') example_processor = Inr (Some True, p') \<and>
       df p' = Some (Frame d') \<and> equal_row_count d' \<and> columns d' = [''b'', ''a'']) \<and>
   (\<exists>p'. filter_rows example_env (Some ''zzz'') example_processor = (False, p') \<and>
       df p' = Some (Frame example_frame)) \<and>
   (\<exists>p' d'. filter_rows example_env (Some ''a == 2'') example_processor = (True, p') \<and>
       df p' = Some (Frame d') \<and> equal_row_count d' \<and> columns d' = [''a'', ''b'']) \<and>
   (\<exists>p' d'. filter_rows example_env (Some ''[0, 0, 0, 0]'') example_processor = (True, p') \<and>
       df p' = Some (Frame d') \<and> equal_row_count d' \<and> columns d' = [''a'', ''b'']) \<and>
   (\<exists>p' d'. remove_duplicates None example_processor = Inr (True, p') \<and>
       df p' = Some (Frame d') \<and> equal_row_count d' \<and> columns d' = [''a'', ''b'']) \<and>
   (\<exists>p' d'. fill_missing ''fill'' None example_processor = Inr (True, p') \<and>
       df p' = Some (Frame d') \<and> equal_row_count d' \<and> columns d' = [''a'', ''b'']) \<and>
   (\<exists>p' d'. sort_data example_env (Some ''b'') False example_processor = Inr (True, p') \<and>
       df p' = Some (Frame d') \<and> equal_row_count d' \<and> columns d' = [''a'', ''b''])"
proof -
  have start: "df example_processor = Some (Frame example_frame) \<and>
               equal_row_count example_frame"
    using example_processor_df example_shape by simp
  have dist: "distinct (columns example_frame)"
    by code_simp
  have cols: "columns example_frame = [''a'', ''b'']"
    by (simp add: example_frame_def)
  have req: "map strip (split_on CHR '','' ''b, a'') = [''b'', ''a'']"
    by code_simp
  have run0: "load_csv example_env ''utf-8'' '','' (init ''in.csv'') =
      (True, \<lparr>input_file = ''in.csv'', df = Some (Frame example_frame), original_rows = 3,
              logged = [Info_Loading ''in.csv'', Info_Loaded 3 2], written = []\<rparr>)"
    by code_simp
  have run1: "select_columns (Some ''b, a'') example_processor =
      Inr (Some True, example_processor
             \<lparr>logged := [Info_Selecting [''b'', ''a'']],
              df := Some (Frame \<lparr>columns = [''b'', ''a''],
                                 rows = [(0, [Some 7, Some 2]), (1, [None, Some 1]),
                                         (2, [Some 7, Some 2])]\<rparr>)\<rparr>)"
    by code_simp
  have run2: "filter_rows example_env (Some ''zzz'') example_processor =
      (False, example_processor
             \<lparr>logged := [Info_ApplyingFilter ''zzz'',
                         Error_Filter (OtherException ''not evaluated'')]\<rparr>)"
    by code_simp
  have run3: "filter_rows example_env (Some ''a == 2'') example_processor =
      (True, example_processor
             \<lparr>df := Some (Frame (example_frame
                     \<lparr>rows := [(0, [Some 2, Some 7]), (2, [Some 2, Some 7])]\<rparr>)),
              logged := [Info_ApplyingFilter ''a == 2'', Info_Filtered 1 2]\<rparr>)"
    by code_simp
  have ev3: "eval_query example_env (the (Some ''a == 2'')) example_frame =
               Inr (Mask [True, False, True])"
    by code_simp
  have run4: "filter_rows example_env (Some ''[0, 0, 0, 0]'') example_processor =
      (True, example_processor
        \<lparr>df := Some (Frame (example_frame
                \<lparr>rows := [(0, [Some 2, Some 7]), (0, [Some 2, Some 7]),
                          (0, [Some 2, Some 7]), (0, [Some 2, Some 7])]\<rparr>)),
         logged := [Info_ApplyingFilter ''[0, 0, 0, 0]'', Info_Filtered (- 1) 4]\<rparr>)"
    by code_simp
  have ev4: "eval_query example_env (the (Some ''[0, 0, 0, 0]'')) example_frame =
               Inr (Labels [0, 0, 0, 0])"
    by code_simp
  have run5: "remove_duplicates None example_processor =
      Inr (True, example_processor
             \<lparr>df := Some (Frame (example_frame
                     \<lparr>rows := [(0, [Some 2, Some 7]), (1, [Some 1, None])]\<rparr>)),
              logged := [Info_RemovedDuplicates 1]\<rparr>)"
    by code_simp
  have run6: "fill_missing ''fill'' None example_processor =
      Inr (True, example_processor
             \<lparr>df := Some (Frame (example_frame
                     \<lparr>rows := [(0, [Some 2, Some 7]), (1, [Some 1, Some 0]),
                               (2, [Some 2, Some 7])]\<rparr>)),
              logged := [Info_FoundMissing 1, Info_Filled 0]\<rparr>)"
    by code_simp
  have run7: "sort_data example_env (Some ''b'') False example_processor =
      Inr (True, example_processor
             \<lparr>df := Some (Frame (example_frame
                     \<lparr>rows := [(0, [Some 2, Some 7]), (2, [Some 2, Some 7]),
                               (1, [Some 1, None])]\<rparr>)),
              logged := [Info_Sorting ''b'' False]\<rparr>)"
    by code_simp
  have ok: "\<forall>ks. argsort_ok (argsort example_env) ks"
    using example_argsort_ok by blast
  have t: "truthy (Some ''zzz'')" "truthy (Some ''a == 2'')" "truthy (Some ''[0, 0, 0, 0]'')"
    by simp_all
  note shape = stages_keep_shape [where E = example_env and p = example_processor
      and d = example_frame]
  note stage = shape [THEN conjunct2, THEN mp, OF start]
  have m3: "(\<exists>marks. eval_query example_env (the (Some ''a == 2'')) example_frame =
                      Inr (Mask marks)) \<or>
            (\<exists>ls. eval_query example_env (the (Some ''a == 2'')) example_frame =
                   Inr (Labels ls))"
    using ev3 by blast
  have m4: "(\<exists>marks. eval_query example_env (the (Some ''[0, 0, 0, 0]'')) example_frame =
                      Inr (Mask marks)) \<or>
            (\<exists>ls. eval_query example_env (the (Some ''[0, 0, 0, 0]'')) example_frame =
                   Inr (Labels ls))"
    using ev4 by blast
  from shape [THEN conjunct1, THEN mp, OF run0] run0
  have 0: "\<exists>pl d0. load_csv example_env ''utf-8'' '','' (init ''in.csv'') = (True, pl) \<and>
       df pl = Some (Frame d0) \<and> equal_row_count d0 \<and> distinct (columns d0)"
    by blast
  from stage [THEN conjunct1, THEN mp, OF run1] run1 dist req
  have 1: "\<exists>p' d'. select_columns (Some ''b, a'') example_processor = Inr (Some True, p') \<and>
       df p' = Some (Frame d') \<and> equal_row_count d' \<and> columns d' = [''b'', ''a'']"
    by (metis option.sel)
  from stage [THEN conjunct2, THEN conjunct1, THEN mp, OF conjI [OF run2 disjI2]] run2
  have 2: "\<exists>p'. filter_rows example_env (Some ''zzz'') example_processor = (False, p') \<and>
       df p' = Some (Frame example_frame)"
    by blast
  from stage [THEN conjunct2, THEN conjunct2, THEN conjunct1, THEN mp,
              OF conjI [OF run3 conjI [OF t(2) m3]]] run3 cols
  have 3: "\<exists>p' d'. filter_rows example_env (Some ''a == 2'') example_processor = (True, p') \<and>
       df p' = Some (Frame d') \<and> equal_row_count d' \<and> columns d' = [''a'', ''b'']"
    by metis
  from stage [THEN conjunct2, THEN conjunct2, THEN conjunct1, THEN mp,
              OF conjI [OF run4 conjI [OF t(3) m4]]] run4 cols
  have 4: "\<exists>p' d'. filter_rows example_env (Some ''[0, 0, 0, 0]'') example_processor = (True, p') \<and>
       df p' = Some (Frame d') \<and> equal_row_count d' \<and> columns d' = [''a'', ''b'']"
    by metis
  from stage [THEN conjunct2, THEN conjunct2, THEN conjunct2, THEN conjunct1, THEN mp, OF run5]
    run5 cols
  have 5: "\<exists>p' d'. remove_duplicates None example_processor = Inr (True, p') \<and>
       df p' = Some (Frame d') \<and> equal_row_count d' \<and> columns d' = [''a'', ''b'']"
    by metis
  from stage [THEN conjunct2, THEN conjunct2, THEN conjunct2, THEN conjunct2, THEN conjunct1,
              THEN mp, OF run6] run6 cols
  have 6: "\<exists>p' d'. fill_missing ''fill'' None example_processor = Inr (True, p') \<and>
       df p' = Some (Frame d') \<and> equal_row_count d' \<and> columns d' = [''a'', ''b'']"
    by metis
  from stage [THEN conjunct2, THEN conjunct2, THEN conjunct2, THEN conjunct2, THEN conjunct2,
              THEN mp, OF conjI [OF ok run7]] run7 cols
  have 7: "\<exists>p' d'. sort_data example_env (Some ''b'') False example_processor = Inr (True, p') \<and>
       df p' = Some (Frame d') \<and> equal_row_count d' \<and> columns d' = [''a'', ''b'']"
    by metis
  from 0 1 2 3 4 5 6 7 show ?thesis by blast
qed

text \<open>
  C9 as stated has the selection always yield unique column names. The loaded Dataset
  has the unique names \<^verbatim>\<open>a\<close>, \<^verbatim>\<open>b\<close>; requesting \<^verbatim>\<open>a,a\<close> passes the check for
  missing names and yields two columns named \<^verbatim>\<open>a\<close>.
\<close>

theorem select_repeated_name:
  "load_csv example_env ''utf-8'' '','' (init ''in.csv'') =
     (True, \<lparr>input_file = ''in.csv'', df = Some (Frame example_frame), original_rows = 3,
             logged = [Info_Loading ''in.csv'', Info_Loaded 3 2], written = []\<rparr>) \<and>
   equal_row_count example_frame \<and> distinct (columns example_frame) \<and>
   select_columns (Some ''a,a'') example_processor =
     Inr (Some True,
          example_processor
            \<lparr>logged := [Info_Selecting [''a'', ''a'']], df := Some (Frame repeated_frame)\<rparr>) \<and>
   columns repeated_frame = [''a'', ''a''] \<and>
   \<not> distinct (columns repeated_frame)"
  by code_simp

text \<open>
  A filter whose expression evaluates to one row label succeeds and leaves, in place of
  the Dataset, the Series of that row.
\<close>

lemma filter_label_leaves_series:
  "filter_rows example_env (Some ''1'') example_processor =
     (True, example_processor
        \<lparr>df := Some (Series [(''a'', Some 1), (''b'', None)]),
         logged := [Info_ApplyingFilter ''1'', Info_Filtered 1 2]\<rparr>)"
  by code_simp

end
